theory Spec2Isabelle
  imports Main
begin

section \<open>The Go runtime: errors and aborts\<close>

text \<open>
  A Go \<^verbatim>\<open>error\<close> value is \<^verbatim>\<open>nil\<close> or carries a message: \<open>goerror option\<close>.
  A run of \<^verbatim>\<open>main\<close> ends early in one of four ways, each a value of \<open>abort\<close>:
  a nil pointer dereference and an index out of range are run-time panics, \<^verbatim>\<open>panic(v)\<close>
  is a panic of the program's own, and \<^verbatim>\<open>os.Exit(n)\<close> (also \<^verbatim>\<open>log.Fatal\<close>, which is
  \<^verbatim>\<open>os.Exit(1)\<close> after printing) ends the process with code \<open>n\<close>. A panic that nothing
  recovers ends a Go process with code 2.
\<close>

type_synonym goerror = string

datatype abort =
    NilDereference
  | IndexOutOfRange
  | Panic string
  | Exit nat

fun exitCode :: "abort + 'a \<Rightarrow> nat" where
  "exitCode (Inr _) = 0"
| "exitCode (Inl (Exit n)) = n"
| "exitCode (Inl _) = 2"

section \<open>The Go standard library: \<^verbatim>\<open>strings\<close> and \<^verbatim>\<open>strconv\<close>\<close>

text \<open>
  Strings are byte lists, in UTF-8 where the program reads text. \<^verbatim>\<open>strings.TrimSpace\<close>
  removes the white space of Unicode from both ends: the six ASCII bytes (tab, line feed,
  vertical tab, form feed, carriage return, space), U+0085 and U+00A0 (two bytes each) and
  U+1680, U+2000 to U+200A, U+2028, U+2029, U+202F, U+205F and U+3000 (three bytes each).
  \<open>trimLeading\<close> strips such runes from the front of a string; with \<open>back\<close> set it reads a
  reversed string, the bytes of a rune last to first.
\<close>

definition nl :: char where
  "nl = CHR 0x0A"

definition isSpace :: "char \<Rightarrow> bool" where
  "isSpace c = (c \<in> set [CHR 0x09, CHR 0x0A, CHR 0x0B, CHR 0x0C, CHR 0x0D, CHR 0x20])"

definition spaceRune2 :: "char \<Rightarrow> char \<Rightarrow> bool" where
  "spaceRune2 a b = (a = CHR 0xC2 \<and> (b = CHR 0x85 \<or> b = CHR 0xA0))"

definition spaceRune3 :: "char \<Rightarrow> char \<Rightarrow> char \<Rightarrow> bool" where
  "spaceRune3 a b c =
     ((a = CHR 0xE1 \<and> b = CHR 0x9A \<and> c = CHR 0x80)
      \<or> (a = CHR 0xE2 \<and> b = CHR 0x80
          \<and> c \<in> set [CHR 0x80, CHR 0x81, CHR 0x82, CHR 0x83, CHR 0x84, CHR 0x85, CHR 0x86,
                       CHR 0x87, CHR 0x88, CHR 0x89, CHR 0x8A, CHR 0xA8, CHR 0xA9, CHR 0xAF])
      \<or> (a = CHR 0xE2 \<and> b = CHR 0x81 \<and> c = CHR 0x9F)
      \<or> (a = CHR 0xE3 \<and> b = CHR 0x80 \<and> c = CHR 0x80))"

fun trimLeading :: "bool \<Rightarrow> string \<Rightarrow> string" where
  "trimLeading back [] = []"
| "trimLeading back [c] = (if isSpace c then [] else [c])"
| "trimLeading back [c, d] =
     (if isSpace c then trimLeading back [d]
      else if (if back then spaceRune2 d c else spaceRune2 c d) then []
      else [c, d])"
| "trimLeading back (c # d # e # es) =
     (if isSpace c then trimLeading back (d # e # es)
      else if (if back then spaceRune2 d c else spaceRune2 c d) then trimLeading back (e # es)
      else if (if back then spaceRune3 e d c else spaceRune3 c d e) then trimLeading back es
      else c # d # e # es)"

definition TrimSpace :: "string \<Rightarrow> string" where
  "TrimSpace s = rev (trimLeading True (rev (trimLeading False s)))"

text \<open>\<^verbatim>\<open>strings.Split(s, sep)\<close> for a one-byte separator: one more piece than separators.\<close>

fun Split :: "string \<Rightarrow> char \<Rightarrow> string list" where
  "Split [] sep = [[]]"
| "Split (c # cs) sep =
     (if c = sep then [] # Split cs sep
      else (case Split cs sep of p # ps \<Rightarrow> (c # p) # ps | [] \<Rightarrow> [[c]]))"

definition isDigit :: "char \<Rightarrow> bool" where
  "isDigit c = (c \<in> set ''0123456789'')"

definition digitVal :: "char \<Rightarrow> int" where
  "digitVal c = int (of_char c) - 48"

text \<open>
  \<^verbatim>\<open>strconv.ParseUint(s, 10, 64)\<close> reads digit by digit: a byte that is no digit is a
  syntax error with value 0, a value beyond 64 bits is a range error with the largest
  value, found before the bytes that follow are looked at.
\<close>

datatype numError = ErrSyntax | ErrRange

fun scanDigits :: "int \<Rightarrow> string \<Rightarrow> int \<times> numError option" where
  "scanDigits n [] = (n, None)"
| "scanDigits n (c # cs) =
     (if \<not> isDigit c then (0, Some ErrSyntax)
      else if 2 ^ 64 - 1 < 10 * n + digitVal c then (2 ^ 64 - 1, Some ErrRange)
      else scanDigits (10 * n + digitVal c) cs)"

definition ParseUint :: "string \<Rightarrow> int \<times> numError option" where
  "ParseUint s = (if s = [] then (0, Some ErrSyntax) else scanDigits 0 s)"

text \<open>
  \<^verbatim>\<open>strconv.ParseInt(s, 10, 64)\<close>: an optional sign, then \<^verbatim>\<open>ParseUint\<close>. A syntax error
  returns 0; a value outside the signed 64-bit range returns a range error together with
  the nearest value of the range.
\<close>

definition ParseInt :: "string \<Rightarrow> int \<times> numError option" where
  "ParseInt s =
     (if s = [] then (0, Some ErrSyntax)
      else
        let neg = (hd s = CHR ''-'');
            s' = (if hd s = CHR ''+'' \<or> hd s = CHR ''-'' then tl s else s)
        in case ParseUint s' of
             (un, Some ErrSyntax) \<Rightarrow> (0, Some ErrSyntax)
           | (un, _) \<Rightarrow>
               if \<not> neg \<and> 2 ^ 63 \<le> un then (2 ^ 63 - 1, Some ErrRange)
               else if neg \<and> 2 ^ 63 < un then (- (2 ^ 63), Some ErrRange)
               else (if neg then - un else un, None))"

text \<open>\<^verbatim>\<open>strconv.FormatInt(n, 10)\<close>.\<close>

fun formatNat :: "nat \<Rightarrow> string" where
  "formatNat n =
     (if n < 10 then [char_of (48 + n)]
      else formatNat (n div 10) @ [char_of (48 + n mod 10)])"

declare formatNat.simps [simp del]

definition FormatInt :: "int \<Rightarrow> string" where
  "FormatInt n = (if n < 0 then CHR ''-'' # formatNat (nat (- n)) else formatNat (nat n))"

text \<open>\<^verbatim>\<open>strings.Join(parts, sep)\<close>.\<close>

fun Join :: "string list \<Rightarrow> string \<Rightarrow> string" where
  "Join [] sep = []"
| "Join [p] sep = p"
| "Join (p # q # ps) sep = p @ sep @ Join (q # ps) sep"

section \<open>The version library (hashicorp/go-version 1.2.0, pinned in go.mod)\<close>

text \<open>
  The program imports the library; its source is outside the repository. The model follows
  the library's \<^verbatim>\<open>version.go\<close>: \<^verbatim>\<open>NewVersion\<close> matches the whole string against
  \<^verbatim>\<open>v?NUM(PRE)?(META)?\<close>, where \<^verbatim>\<open>NUM\<close> is decimal numbers joined by dots, \<^verbatim>\<open>PRE\<close> is
  either a dash and identifiers the first of which starts with a digit, or an optional dash
  and identifiers the first of which starts with a letter, dash or tilde, and \<^verbatim>\<open>META\<close> is
  a plus and identifiers; identifiers are joined by dots and made of letters, digits, dash
  and tilde. On a mismatch, and on a number beyond 64 bits, it returns a nil pointer and an
  error. Fewer than three numbers are padded with zeros.
\<close>

record Version =
  metadata :: string
  pre :: string
  segments :: "int list"
  si :: nat
  original :: string

definition isAlphaDashTilde :: "char \<Rightarrow> bool" where
  "isAlphaDashTilde c =
     (c \<in> set ''ABCDEFGHIJKLMNOPQRSTUVWXYZabcdefghijklmnopqrstuvwxyz-~'')"

definition isIdChar :: "char \<Rightarrow> bool" where
  "isIdChar c = (isDigit c \<or> isAlphaDashTilde c)"

definition dotted :: "(char \<Rightarrow> bool) \<Rightarrow> string \<Rightarrow> bool" where
  "dotted P s = list_all (\<lambda>p. p \<noteq> [] \<and> list_all P p) (Split s (CHR ''.''))"

definition matchPre :: "string \<Rightarrow> string option" where
  "matchPre r =
     (if r = [] then Some []
      else if hd r = CHR ''-'' \<and> tl r \<noteq> [] \<and> isDigit (hd (tl r)) \<and> dotted isIdChar (tl r)
        then Some (tl r)
      else if hd r = CHR ''-'' \<and> tl r \<noteq> [] \<and> isAlphaDashTilde (hd (tl r))
              \<and> dotted isIdChar (tl r)
        then Some (tl r)
      else if isAlphaDashTilde (hd r) \<and> dotted isIdChar r then Some r
      else None)"

definition matchMeta :: "string \<Rightarrow> string option" where
  "matchMeta r =
     (if r = [] then Some []
      else if hd r = CHR ''+'' \<and> dotted isIdChar (tl r) then Some (tl r)
      else None)"

fun parseSegments :: "string list \<Rightarrow> int list option" where
  "parseSegments [] = Some []"
| "parseSegments (str # strs) =
     (case ParseInt str of
        (val, Some err) \<Rightarrow> None
      | (val, None) \<Rightarrow>
          (case parseSegments strs of None \<Rightarrow> None | Some vals \<Rightarrow> Some (val # vals)))"

definition NewVersion :: "string \<Rightarrow> Version option" where
  "NewVersion v =
     (let s = (if v \<noteq> [] \<and> hd v = CHR ''v'' then tl v else v);
          num = takeWhile (\<lambda>c. isDigit c \<or> c = CHR ''.'') s;
          rest = dropWhile (\<lambda>c. isDigit c \<or> c = CHR ''.'') s;
          preRaw = takeWhile (\<lambda>c. c \<noteq> CHR ''+'') rest;
          metaRaw = dropWhile (\<lambda>c. c \<noteq> CHR ''+'') rest
      in if \<not> dotted isDigit num then None
         else (case matchPre preRaw of
                 None \<Rightarrow> None
               | Some p \<Rightarrow>
                  (case matchMeta metaRaw of
                     None \<Rightarrow> None
                   | Some m \<Rightarrow>
                      (case parseSegments (Split num (CHR ''.'')) of
                         None \<Rightarrow> None
                       | Some segs \<Rightarrow>
                           Some \<lparr>metadata = m, pre = p,
                                 segments = segs @ replicate (3 - length segs) 0,
                                 si = length segs, original = v\<rparr>))))"

text \<open>\<^verbatim>\<open>(*Version).String\<close>: the numbers joined by dots, then the pre-release and metadata.\<close>

definition String :: "Version \<Rightarrow> string" where
  "String v =
     Join (map FormatInt (segments v)) ''.''
     @ (if pre v \<noteq> [] then CHR ''-'' # pre v else [])
     @ (if metadata v \<noteq> [] then CHR ''+'' # metadata v else [])"

definition allZero :: "int list \<Rightarrow> bool" where
  "allZero segs = list_all (\<lambda>s. s = 0) segs"

text \<open>
  The segment loop of \<^verbatim>\<open>Compare\<close>: index by index, the shorter side counting as
  exhausted; an exhausted side is smaller unless the other side's remainder is all zero.
\<close>

fun compareSegments :: "int list \<Rightarrow> int list \<Rightarrow> int" where
  "compareSegments [] segmentsOther = (if allZero segmentsOther then 0 else - 1)"
| "compareSegments (lhs # segmentsSelf) [] = (if allZero (lhs # segmentsSelf) then 0 else 1)"
| "compareSegments (lhs # segmentsSelf) (rhs # segmentsOther) =
     (if lhs = rhs then compareSegments segmentsSelf segmentsOther
      else if lhs < rhs then - 1
      else 1)"

text \<open>Go compares strings byte by byte.\<close>

fun stringLess :: "string \<Rightarrow> string \<Rightarrow> bool" where
  "stringLess [] [] = False"
| "stringLess [] (y # ys) = True"
| "stringLess (x # xs) [] = False"
| "stringLess (x # xs) (y # ys) =
     ((of_char x :: nat) < of_char y \<or> (x = y \<and> stringLess xs ys))"

text \<open>
  \<^verbatim>\<open>comparePart\<close> keeps the value \<^verbatim>\<open>ParseInt\<close> returned whether or not it reported an
  error, and compares these values in its last test.
\<close>

definition comparePart :: "string \<Rightarrow> string \<Rightarrow> int" where
  "comparePart preSelf preOther =
     (let selfInt = fst (ParseInt preSelf);
          selfNumeric = (snd (ParseInt preSelf) = None);
          otherInt = fst (ParseInt preOther);
          otherNumeric = (snd (ParseInt preOther) = None)
      in if preSelf = preOther then 0
         else if preSelf = [] then (if otherNumeric then - 1 else 1)
         else if preOther = [] then (if selfNumeric then 1 else - 1)
         else if selfNumeric \<and> \<not> otherNumeric then - 1
         else if \<not> selfNumeric \<and> otherNumeric then 1
         else if \<not> selfNumeric \<and> \<not> otherNumeric \<and> stringLess preOther preSelf then 1
         else if otherInt < selfInt then 1
         else - 1)"

fun compareParts :: "string list \<Rightarrow> string list \<Rightarrow> int" where
  "compareParts [] [] = 0"
| "compareParts (p # ps) [] =
     (if comparePart p [] \<noteq> 0 then comparePart p [] else compareParts ps [])"
| "compareParts [] (q # qs) =
     (if comparePart [] q \<noteq> 0 then comparePart [] q else compareParts [] qs)"
| "compareParts (p # ps) (q # qs) =
     (if comparePart p q \<noteq> 0 then comparePart p q else compareParts ps qs)"

definition comparePrereleases :: "string \<Rightarrow> string \<Rightarrow> int" where
  "comparePrereleases v other =
     (if v = other then 0
      else compareParts (Split v (CHR ''.'')) (Split other (CHR ''.'')))"

definition Compare :: "Version \<Rightarrow> Version \<Rightarrow> int" where
  "Compare v other =
     (if String v = String other then 0
      else if segments v = segments other then
        (if pre v = [] \<and> pre other = [] then 0
         else if pre v = [] then 1
         else if pre other = [] then - 1
         else comparePrereleases (pre v) (pre other))
      else compareSegments (segments v) (segments other))"

text \<open>
  The program holds versions as pointers (\<^verbatim>\<open>*version.Version\<close>), \<open>None\<close> being
  \<^verbatim>\<open>nil\<close>. \<^verbatim>\<open>LessThan\<close> and \<^verbatim>\<open>Original\<close> read the fields of their receiver, and
  \<^verbatim>\<open>LessThan\<close> those of its argument: on a nil pointer they panic.
\<close>

definition LessThan :: "Version option \<Rightarrow> Version option \<Rightarrow> abort + bool" where
  "LessThan v other =
     (case (v, other) of
        (Some a, Some b) \<Rightarrow> Inr (Compare a b < 0)
      | _ \<Rightarrow> Inl NilDereference)"

definition Original :: "Version option \<Rightarrow> abort + string" where
  "Original v = (case v of Some a \<Rightarrow> Inr (original a) | None \<Rightarrow> Inl NilDereference)"

section \<open>Version Resolver (\<^verbatim>\<open>main\<close>, the loop over \<^verbatim>\<open>versionsList\<close>)\<close>

text \<open>
  \<^verbatim>\<open>latestVersion, err := version.NewVersion(versionsList[0])\<close> seeds the candidate; the
  error is not looked at. The loop skips index 0 and empty lines, discards the error of
  each \<^verbatim>\<open>NewVersion\<close> and replaces the candidate when \<^verbatim>\<open>latestVersion.LessThan(v)\<close>.
\<close>

fun latestLoop :: "Version option \<Rightarrow> string list \<Rightarrow> abort + Version option" where
  "latestLoop latestVersion [] = Inr latestVersion"
| "latestLoop latestVersion (rawVersion # rest) =
     (if rawVersion = [] then latestLoop latestVersion rest
      else (case LessThan latestVersion (NewVersion rawVersion) of
              Inl a \<Rightarrow> Inl a
            | Inr lt \<Rightarrow>
                latestLoop (if lt then NewVersion rawVersion else latestVersion) rest))"

definition latestVersion :: "string list \<Rightarrow> abort + Version option" where
  "latestVersion versionsList =
     (case versionsList of
        [] \<Rightarrow> Inl IndexOutOfRange
      | first # rest \<Rightarrow> latestLoop (NewVersion first) rest)"

text \<open>
  The resolver as the rest of \<^verbatim>\<open>main\<close> sees it: from the standard output of the
  version-check script to the string \<^verbatim>\<open>latestVersion.Original()\<close>.
\<close>

definition resolveLines :: "string list \<Rightarrow> abort + string" where
  "resolveLines versionsList =
     (case latestVersion versionsList of Inl a \<Rightarrow> Inl a | Inr v \<Rightarrow> Original v)"

definition resolve :: "string \<Rightarrow> abort + string" where
  "resolve stdout = resolveLines (Split (TrimSpace stdout) nl)"

section \<open>Data of the program and of its collaborators\<close>

text \<open>
  \<^verbatim>\<open>Blob\<close> is the program's struct. A metalink (\<^verbatim>\<open>metalink.Metalink\<close>) is read for its
  \<^verbatim>\<open>Files\<close>, a file for its \<^verbatim>\<open>Name\<close> and the \<^verbatim>\<open>URL\<close> field of each of its \<^verbatim>\<open>URLs\<close>.
  A dependency is the directory of its \<^verbatim>\<open>resource.yml\<close> (\<^verbatim>\<open>localBlobDir\<close>), the base
  name of that directory (\<^verbatim>\<open>packageName\<close>) and the two scripts of its decoded
  \<^verbatim>\<open>ResourceConfig\<close>.
\<close>

record Blob =
  Path :: string
  PackageName :: string
  ID :: string
  Size :: string
  Sha :: string

definition emptyBlob :: Blob where
  "emptyBlob = \<lparr>Path = [], PackageName = [], ID = [], Size = [], Sha = []\<rparr>"

record File =
  Name :: string
  URLs :: "string list"

record Metalink =
  Files :: "File list"

record Resource =
  localBlobDir :: string
  packageName :: string
  VersionCheck :: string
  MetalinkGet :: string

datatype oserror = NotExist | OtherError string

datatype StatusCode =
  Unmodified | Untracked | Modified | Added | Deleted | Renamed | Copied | UpdatedButUnmerged

record GitStatus =
  rendering :: string
  Staging :: "string \<Rightarrow> StatusCode"

text \<open>
  What the program asks of the outside world, in the order it asks: the observable trace
  of a run. The local files it reads back (the downloaded artifact, the version marker) are
  the \<open>files\<close> of the state; \<^verbatim>\<open>commitHeader\<close> and \<^verbatim>\<open>commitBody\<close> are the two strings
  \<^verbatim>\<open>main\<close> accumulates for the commit message.
\<close>

datatype event =
    Printed string
  | Executed string "(string \<times> string) list"
  | Fetched string
  | Bosh "string list"
  | GitAdd string
  | GitStatusRead
  | GitCommit string string string

record state =
  files :: "string \<rightharpoonup> string"
  trace :: "event list"
  commitHeader :: string
  commitBody :: string

definition emit :: "event \<Rightarrow> state \<Rightarrow> state" where
  "emit e s = s\<lparr>trace := trace s @ [e]\<rparr>"

text \<open>
  The answers of the outside world, one function per call the program makes:
  \<^item> \<open>ExecuteScript\<close>: \<^verbatim>\<open>api.ExecuteScript\<close>, the bytes and the error it returns;
  \<^item> \<open>Unmarshal\<close>: \<^verbatim>\<open>metalink.Unmarshal\<close>, the value left in \<^verbatim>\<open>meta4\<close> and the error;
  \<^item> \<open>http_Get\<close>: \<^verbatim>\<open>http.Get\<close>, an error or the body the server sends;
  \<^item> \<open>copyFault\<close>: \<^verbatim>\<open>io.Copy(out, resp.Body)\<close> stopping after \<open>n\<close> bytes with an error
    (the connection breaks, or the disk refuses the write);
  \<^item> \<open>os_Create\<close>, \<open>os_Chmod\<close>, \<open>os_Open\<close>, \<open>readFault\<close>, \<open>ReadFile_fault\<close>,
    \<open>WriteFile_fault\<close>: the errors of the file operations;
  \<^item> \<open>sha256hex\<close>: the SHA-256 digest of a byte string, in hexadecimal;
  \<^item> \<open>cmdNew\<close>, \<open>cmdExecute\<close>: building and running a command of the bosh CLI;
  \<^item> \<open>w_Add\<close>, \<open>w_Status\<close>, \<open>w_Commit\<close>, \<open>CommitObject\<close>: the git work tree;
  \<^item> \<open>LookupEnv\<close> and \<open>Quote\<close> (the verb \<^verbatim>\<open>%q\<close>).
\<close>

record externals =
  ExecuteScript :: "string \<Rightarrow> (string \<times> string) list \<Rightarrow> string \<times> goerror option"
  Unmarshal :: "string \<Rightarrow> Metalink \<times> goerror option"
  http_Get :: "string \<Rightarrow> goerror + string"
  copyFault :: "string \<Rightarrow> (nat \<times> goerror) option"
  os_Create :: "string \<Rightarrow> goerror option"
  os_Chmod :: "string \<Rightarrow> goerror option"
  os_Open :: "string \<Rightarrow> goerror option"
  readFault :: "string \<Rightarrow> goerror option"
  ReadFile_fault :: "string \<Rightarrow> goerror option"
  WriteFile_fault :: "string \<Rightarrow> oserror option"
  sha256hex :: "string \<Rightarrow> string"
  cmdNew :: "string list \<Rightarrow> goerror option"
  cmdExecute :: "string list \<Rightarrow> goerror option"
  w_Add :: "string \<Rightarrow> goerror option"
  w_Status :: "goerror + GitStatus"
  w_Commit :: "string \<Rightarrow> goerror + string"
  CommitObject :: "string \<Rightarrow> goerror + string"
  LookupEnv :: "string \<Rightarrow> string option"
  Quote :: "string \<Rightarrow> string"

text \<open>
  \<^verbatim>\<open>filepath.Clean\<close> with \<^verbatim>\<open>/\<close> as the separator: empty elements and \<^verbatim>\<open>.\<close> are
  dropped, \<^verbatim>\<open>..\<close> removes the element before it (at the start of a path it stays when
  the path is relative and goes when it is rooted), no slash is left at the end, and an
  empty result is \<^verbatim>\<open>.\<close>. \<open>cleanElems\<close> holds the elements kept so far, last first.
\<close>

fun cleanElems :: "bool \<Rightarrow> string list \<Rightarrow> string list \<Rightarrow> string list" where
  "cleanElems rooted out [] = rev out"
| "cleanElems rooted out (e # es) =
     (if e = [] \<or> e = ''.'' then cleanElems rooted out es
      else if e = ''..'' then
        (case out of
           [] \<Rightarrow> cleanElems rooted (if rooted then [] else [e]) es
         | o1 # kept \<Rightarrow> cleanElems rooted (if o1 = ''..'' then e # out else kept) es)
      else cleanElems rooted (e # out) es)"

definition Clean :: "string \<Rightarrow> string" where
  "Clean path =
     (if path = [] then ''.''
      else
        let rooted = (hd path = CHR ''/'');
            out = (if rooted then ''/'' else [])
                  @ Join (cleanElems rooted [] (Split path (CHR ''/''))) ''/''
        in if out = [] then ''.'' else out)"

text \<open>
  \<^verbatim>\<open>filepath.Join\<close>: the elements from the first non-empty one on, joined with slashes
  and cleaned; the empty string when there is none.
\<close>

definition pathJoin :: "string list \<Rightarrow> string" where
  "pathJoin elems =
     (case dropWhile (\<lambda>e. e = []) elems of
        [] \<Rightarrow> []
      | e # es \<Rightarrow> Clean (Join (e # es) ''/''))"

definition oserrorMessage :: "oserror \<Rightarrow> goerror" where
  "oserrorMessage e = (case e of NotExist \<Rightarrow> ''file does not exist'' | OtherError m \<Rightarrow> m)"

text \<open>\<^verbatim>\<open>errors.Wrap(err, message)\<close> of \<^verbatim>\<open>github.com/pkg/errors\<close>.\<close>

definition Wrap :: "goerror \<Rightarrow> string \<Rightarrow> goerror" where
  "Wrap err message = message @ '': '' @ err"

text \<open>\<^verbatim>\<open>ioutil.ReadFile\<close> and \<^verbatim>\<open>ioutil.WriteFile\<close> on the files of the state.\<close>

definition ReadFile :: "externals \<Rightarrow> state \<Rightarrow> string \<Rightarrow> string \<times> oserror option" where
  "ReadFile ext s path =
     (case ReadFile_fault ext path of
        Some e \<Rightarrow> ([], Some (OtherError e))
      | None \<Rightarrow> (case files s path of None \<Rightarrow> ([], Some NotExist) | Some c \<Rightarrow> (c, None)))"

definition WriteFile :: "externals \<Rightarrow> string \<Rightarrow> string \<Rightarrow> state \<Rightarrow> oserror option \<times> state" where
  "WriteFile ext path bytes s =
     (case WriteFile_fault ext path of
        Some e \<Rightarrow> (Some e, s)
      | None \<Rightarrow> (None, s\<lparr>files := (files s)(path \<mapsto> bytes)\<rparr>))"

section \<open>Content Fetcher: \<^verbatim>\<open>sha256sum\<close> and \<^verbatim>\<open>DownloadFile\<close>\<close>

definition sha256sum :: "externals \<Rightarrow> string \<Rightarrow> state \<Rightarrow> abort + (string \<times> goerror option)" where
  "sha256sum ext filepath s =
     (case os_Open ext filepath of
        Some err \<Rightarrow> Inl (Exit 1)
      | None \<Rightarrow>
         (case files s filepath of
            None \<Rightarrow> Inl (Exit 1)
          | Some f \<Rightarrow>
             (case readFault ext filepath of
                Some err \<Rightarrow> Inl (Exit 1)
              | None \<Rightarrow> Inr (sha256hex ext f, None))))"

text \<open>
  \<^verbatim>\<open>_, err = io.Copy(out, resp.Body)\<close> is followed at once by
  \<^verbatim>\<open>err = os.Chmod(filepath, 0777)\<close>: the error of the copy is never read. The file holds
  what the copy wrote.
\<close>

definition DownloadFile ::
  "externals \<Rightarrow> string \<Rightarrow> string \<Rightarrow> state \<Rightarrow> (abort + (Blob \<times> goerror option)) \<times> state" where
  "DownloadFile ext filepath url s =
     (let s1 = emit (Fetched url)
                 (emit (Printed (''Downloading '' @ filepath @ '' from '' @ url @ [nl])) s);
          blob = emptyBlob
      in case http_Get ext url of
           Inl err \<Rightarrow> (Inr (blob, Some err), s1)
         | Inr body \<Rightarrow>
            (case os_Create ext filepath of
               Some err \<Rightarrow> (Inr (blob, Some err), s1)
             | None \<Rightarrow>
                (let written = (case copyFault ext url of
                                  None \<Rightarrow> body
                                | Some (n, err) \<Rightarrow> take n body);
                     s2 = s1\<lparr>files := (files s1)(filepath \<mapsto> written)\<rparr>
                 in case os_Chmod ext filepath of
                      Some err \<Rightarrow> (Inr (blob, Some (''changing permissions: '' @ err)), s2)
                    | None \<Rightarrow>
                       (case sha256sum ext filepath s2 of
                          Inl a \<Rightarrow> (Inl a, s2)
                        | Inr (sha, Some err) \<Rightarrow>
                            (Inr (blob, Some (''calculating shasum: '' @ err)), s2)
                        | Inr (sha, None) \<Rightarrow>
                            (Inr (blob\<lparr>Sha := ''sha256:'' @ sha\<rparr>, None), s2)))))"

section \<open>The bosh CLI\<close>

definition bosh :: "externals \<Rightarrow> string list \<Rightarrow> state \<Rightarrow> (abort + goerror option) \<times> state" where
  "bosh ext args s =
     (case cmdNew ext args of
        Some err \<Rightarrow> (Inl (Panic err), s)
      | None \<Rightarrow> (Inr (cmdExecute ext args), emit (Bosh args) s))"

definition boshAddBlob ::
  "externals \<Rightarrow> string \<Rightarrow> string \<Rightarrow> string \<Rightarrow> state \<Rightarrow> (abort + goerror option) \<times> state" where
  "boshAddBlob ext filePath blobPath releaseDir =
     bosh ext [''add-blob'', ''--dir='' @ releaseDir, filePath, blobPath]"

definition boshRemoveBlob ::
  "externals \<Rightarrow> string \<Rightarrow> string \<Rightarrow> state \<Rightarrow> (abort + goerror option) \<times> state" where
  "boshRemoveBlob ext blobPath releaseDir =
     bosh ext [''remove-blob'', ''--dir='' @ releaseDir, blobPath]"

definition boshUploadBlobs ::
  "externals \<Rightarrow> string \<Rightarrow> state \<Rightarrow> (abort + goerror option) \<times> state" where
  "boshUploadBlobs ext releaseDir = bosh ext [''upload-blobs'', ''--dir='' @ releaseDir]"

section \<open>\<^verbatim>\<open>main\<close>, one dependency at a time\<close>

text \<open>
  Two revisions of \<^verbatim>\<open>main\<close> are modelled. \<open>MainGo\<close> is the first document of
  \<^verbatim>\<open>src/main.go\<close>: no version marker, a commit message accumulated in the loop, and a git
  status check before the upload. \<open>Part002\<close> is \<^verbatim>\<open>src/unnamed/part_002\<close>: the version
  marker is read before the blobs are compared and written after, errors of the bosh CLI
  are wrapped, and there is no git. The resolver, the locate step and the comparison of
  blobs are the same text in both.
\<close>

datatype revision = MainGo | Part002

definition panicWith :: "revision \<Rightarrow> goerror \<Rightarrow> string \<Rightarrow> abort" where
  "panicWith rv err message =
     (case rv of MainGo \<Rightarrow> Panic err | Part002 \<Rightarrow> Panic (Wrap err message))"

subsection \<open>Artifact Locator\<close>

text \<open>
  The shape check on the decoded metalink: \<^verbatim>\<open>len(meta4.Files) > 1\<close> panics,
  \<^verbatim>\<open>meta4.Files[0]\<close> is read with no check of its own, \<^verbatim>\<open>len(file.URLs) > 1\<close> panics.
\<close>

definition singleFile :: "Metalink \<Rightarrow> abort + File" where
  "singleFile meta4 =
     (if length (Files meta4) > 1
        then Inl (Panic ''more than one metalink file is currently not supported.'')
      else (case Files meta4 of
              [] \<Rightarrow> Inl IndexOutOfRange
            | file # _ \<Rightarrow>
                if length (URLs file) > 1
                  then Inl (Panic ''more than one metalink URL per file is currently not supported.'')
                else Inr file))"

text \<open>
  Both errors of the step are passed to \<^verbatim>\<open>errors.Wrap\<close> and the wrapped error is dropped:
  the run goes on with the bytes the script returned and with what \<^verbatim>\<open>Unmarshal\<close> left in
  \<^verbatim>\<open>meta4\<close>.
\<close>

definition locate :: "externals \<Rightarrow> string \<Rightarrow> string \<Rightarrow> state \<Rightarrow> (abort + File) \<times> state" where
  "locate ext script ver s =
     (let params = [(''version'', ver)];
          meta4Bytes = fst (ExecuteScript ext script params);
          meta4 = fst (Unmarshal ext meta4Bytes)
      in (singleFile meta4, emit (Executed script params) s))"

subsection \<open>Change Detector, slow path: the loop over the blobs of the manifest\<close>

definition upgradeBlob ::
  "externals \<Rightarrow> revision \<Rightarrow> string \<Rightarrow> string \<Rightarrow> string \<Rightarrow> File \<Rightarrow> Blob \<Rightarrow> state
     \<Rightarrow> (abort + unit) \<times> state" where
  "upgradeBlob ext rv releaseDir pkg blobFilePath file b s =
     (if PackageName b \<noteq> pkg then (Inr (), s)
      else
        let s1 = emit (Printed (''Checking '' @ Path b @ '' ('' @ Sha b @ '')'' @ [nl])) s
        in case URLs file of
             [] \<Rightarrow> (Inl IndexOutOfRange, s1)
           | url # _ \<Rightarrow>
              (case DownloadFile ext blobFilePath url s1 of
                 (Inl a, s2) \<Rightarrow> (Inl a, s2)
               | (Inr (newBlob, Some err), s2) \<Rightarrow> (Inl (Panic err), s2)
               | (Inr (newBlob, None), s2) \<Rightarrow>
                  if Sha b = Sha newBlob
                    then (Inr (),
                          emit (Printed (''Skipping package '' @ [CHR 0x27] @ PackageName b
                                  @ [CHR 0x27] @ ''. Blobs digest '' @ [CHR 0x27] @ Sha newBlob
                                  @ [CHR 0x27] @ '' did not change.'' @ [nl])) s2)
                  else
                    let newPath = pkg @ ''/'' @ Name file;
                        s3 = (case rv of
                                MainGo \<Rightarrow>
                                  s2\<lparr>commitHeader := commitHeader s2 @ '' '' @ pkg,
                                     commitBody := commitBody s2 @ '' - '' @ Quote ext (Path b)
                                       @ '' --> '' @ Quote ext newPath @ [nl]\<rparr>
                              | Part002 \<Rightarrow> s2);
                        s4 = emit (Printed (''Upgrading blob: '' @ Path b @ '' ('' @ Sha b
                                     @ '') --> '' @ newPath @ '' ('' @ Sha newBlob @ '')''
                                     @ [nl])) s3
                    in case boshRemoveBlob ext (Path b) releaseDir s4 of
                         (Inl a, s5) \<Rightarrow> (Inl a, s5)
                       | (Inr (Some err), s5) \<Rightarrow>
                           (Inl (panicWith rv err ''removing old blobs''), s5)
                       | (Inr None, s5) \<Rightarrow>
                          (case boshAddBlob ext blobFilePath newPath releaseDir s5 of
                             (Inl a, s6) \<Rightarrow> (Inl a, s6)
                           | (Inr (Some err), s6) \<Rightarrow>
                               (Inl (panicWith rv err ''adding new blobs''), s6)
                           | (Inr None, s6) \<Rightarrow> (Inr (), s6))))"

text \<open>
  \<^verbatim>\<open>for _, b := range blobs\<close>: Go visits the entries of the map in an order it does not
  fix; the list is that order.
\<close>

fun upgradeBlobs ::
  "externals \<Rightarrow> revision \<Rightarrow> string \<Rightarrow> string \<Rightarrow> string \<Rightarrow> File \<Rightarrow> Blob list \<Rightarrow> state
     \<Rightarrow> (abort + unit) \<times> state" where
  "upgradeBlobs ext rv releaseDir pkg blobFilePath file [] s = (Inr (), s)"
| "upgradeBlobs ext rv releaseDir pkg blobFilePath file (b # blobs) s =
     (case upgradeBlob ext rv releaseDir pkg blobFilePath file b s of
        (Inl a, s') \<Rightarrow> (Inl a, s')
      | (Inr _, s') \<Rightarrow> upgradeBlobs ext rv releaseDir pkg blobFilePath file blobs s')"

subsection \<open>Change Detector, fast path: the version marker (\<open>Part002\<close>)\<close>

definition versionPath :: "Resource \<Rightarrow> string" where
  "versionPath res = pathJoin [localBlobDir res, ''version'']"

text \<open>
  What follows the locate step: in \<open>Part002\<close> the marker is read first and the dependency is
  left when it holds the resolved version; after the blobs the marker is written, and a
  not-exist error of the write is let through.
\<close>

definition compareAndUpgrade ::
  "externals \<Rightarrow> revision \<Rightarrow> Blob list \<Rightarrow> string \<Rightarrow> Resource \<Rightarrow> string \<Rightarrow> File \<Rightarrow> state
     \<Rightarrow> (abort + unit) \<times> state" where
  "compareAndUpgrade ext rv blobs releaseDir res ver file s =
     (case rv of
        MainGo \<Rightarrow>
          upgradeBlobs ext rv releaseDir (packageName res)
            (pathJoin [localBlobDir res, Name file]) file blobs s
      | Part002 \<Rightarrow>
         (case ReadFile ext s (versionPath res) of
            (currentVersionBytes, Some (OtherError err)) \<Rightarrow> (Inl (Panic err), s)
          | (currentVersionBytes, _) \<Rightarrow>
             if currentVersionBytes = ver
               then (Inr (),
                     emit (Printed (''Skipping  package '' @ [CHR 0x27] @ packageName res
                             @ [CHR 0x27] @ ''. Version is unchanged.'' @ [nl])) s)
             else
               (case upgradeBlobs ext rv releaseDir (packageName res)
                       (pathJoin [localBlobDir res, Name file]) file blobs s of
                  (Inl a, s1) \<Rightarrow> (Inl a, s1)
                | (Inr _, s1) \<Rightarrow>
                   (case WriteFile ext (versionPath res) ver s1 of
                      (Some (OtherError err), s2) \<Rightarrow>
                        (Inl (Panic (Wrap err ''writing version'')), s2)
                    | (_, s2) \<Rightarrow> (Inr (), s2)))))"

subsection \<open>The body of the loop over the dependencies\<close>

definition upgradeResource ::
  "externals \<Rightarrow> revision \<Rightarrow> Blob list \<Rightarrow> string \<Rightarrow> Resource \<Rightarrow> state
     \<Rightarrow> (abort + unit) \<times> state" where
  "upgradeResource ext rv blobs releaseDir res s =
     (let s1 = emit (Executed (VersionCheck res) []) s
      in case ExecuteScript ext (VersionCheck res) [] of
           (stdout, Some err) \<Rightarrow> (Inl (Panic err), s1)
         | (stdout, None) \<Rightarrow>
            (case resolve stdout of
               Inl a \<Rightarrow> (Inl a, s1)
             | Inr ver \<Rightarrow>
                (case locate ext (MetalinkGet res) ver s1 of
                   (Inl a, s2) \<Rightarrow> (Inl a, s2)
                 | (Inr file, s2) \<Rightarrow>
                     compareAndUpgrade ext rv blobs releaseDir res ver file s2)))"

fun upgradeResources ::
  "externals \<Rightarrow> revision \<Rightarrow> Blob list \<Rightarrow> string \<Rightarrow> Resource list \<Rightarrow> state
     \<Rightarrow> (abort + unit) \<times> state" where
  "upgradeResources ext rv blobs releaseDir [] s = (Inr (), s)"
| "upgradeResources ext rv blobs releaseDir (r # resourcePaths) s =
     (case upgradeResource ext rv blobs releaseDir r s of
        (Inl a, s') \<Rightarrow> (Inl a, s')
      | (Inr _, s') \<Rightarrow> upgradeResources ext rv blobs releaseDir resourcePaths s')"

section \<open>\<^verbatim>\<open>main\<close>, after the loop\<close>

definition getFromEnv :: "externals \<Rightarrow> string \<Rightarrow> string \<Rightarrow> string" where
  "getFromEnv ext key fallback = (case LookupEnv ext key of Some v \<Rightarrow> v | None \<Rightarrow> fallback)"

text \<open>
  \<open>MainGo\<close>: the manifest is staged, the status of the work tree is read, and unless the
  manifest shows as modified in the index the program prints and calls \<^verbatim>\<open>os.Exit(1)\<close>;
  otherwise the blobs are uploaded and the change is committed.
\<close>

definition finishMainGo :: "externals \<Rightarrow> string \<Rightarrow> state \<Rightarrow> (abort + unit) \<times> state" where
  "finishMainGo ext releaseDir s =
     (let b = pathJoin [''config'', ''blobs.yml''];
          s1 = emit (GitAdd b) s
      in case w_Add ext b of
           Some err \<Rightarrow> (Inl (Panic err), s1)
         | None \<Rightarrow>
            (case w_Status ext of
               Inl err \<Rightarrow> (Inl (Panic err), emit GitStatusRead s1)
             | Inr status \<Rightarrow>
                (let s2 = emit (Printed (''Status:  '' @ rendering status @ [nl]))
                            (emit GitStatusRead s1)
                 in if Staging status b \<noteq> Modified
                      then (Inl (Exit 1),
                            emit (Printed (''No changes in git detected.'' @ [nl])) s2)
                    else
                      (case boshUploadBlobs ext releaseDir s2 of
                         (Inl a, s3) \<Rightarrow> (Inl a, s3)
                       | (Inr (Some err), s3) \<Rightarrow> (Inl (Panic err), s3)
                       | (Inr None, s3) \<Rightarrow>
                          (let gitName = getFromEnv ext ''GIT_NAME'' ''Dependency Bot'';
                               gitEmail = getFromEnv ext ''GIT_EMAIL'' ''ci@localhost'';
                               commitMsg = commitHeader s3 @ [nl, nl] @ commitBody s3;
                               s4 = emit (GitCommit commitMsg gitName gitEmail) s3
                           in case w_Commit ext commitMsg of
                                Inl err \<Rightarrow> (Inl (Panic err), s4)
                              | Inr commit \<Rightarrow>
                                 (case CommitObject ext commit of
                                    Inl err \<Rightarrow> (Inl (Panic err), s4)
                                  | Inr obj \<Rightarrow>
                                      (Inr (), emit (Printed (obj @ [nl])) s4)))))))"

text \<open>
  \<open>Part002\<close>: the credentials file must exist, then the blobs are uploaded; nothing looks
  at whether anything changed.
\<close>

definition finishPart002 :: "externals \<Rightarrow> string \<Rightarrow> state \<Rightarrow> (abort + unit) \<times> state" where
  "finishPart002 ext releaseDir s =
     (let private = pathJoin [releaseDir, ''config'', ''private.yml'']
      in if files s private = None
           then (Inl (Panic (''blobstore credentials not set: stat '' @ private
                              @ '': no such file or directory'')), s)
         else
           (case boshUploadBlobs ext releaseDir s of
              (Inl a, s1) \<Rightarrow> (Inl a, s1)
            | (Inr (Some err), s1) \<Rightarrow> (Inl (Panic (Wrap err ''uploading blobs'')), s1)
            | (Inr None, s1) \<Rightarrow> (Inr (), s1)))"

text \<open>
  \<^verbatim>\<open>main\<close> from the loop on: \<open>blobs\<close> is the decoded manifest, \<open>resourcePaths\<close> the decoded
  dependencies, \<open>fs\<close> the local files at the start.
\<close>

definition initial :: "(string \<rightharpoonup> string) \<Rightarrow> state" where
  "initial fs = \<lparr>files = fs, trace = [], commitHeader = ''Update blobs:'', commitBody = []\<rparr>"

definition main ::
  "externals \<Rightarrow> revision \<Rightarrow> Blob list \<Rightarrow> string \<Rightarrow> Resource list \<Rightarrow> (string \<rightharpoonup> string)
     \<Rightarrow> (abort + unit) \<times> state" where
  "main ext rv blobs releaseDir resourcePaths fs =
     (case upgradeResources ext rv blobs releaseDir resourcePaths (initial fs) of
        (Inl a, s) \<Rightarrow> (Inl a, s)
      | (Inr _, s) \<Rightarrow>
          (case rv of
             MainGo \<Rightarrow> finishMainGo ext releaseDir s
           | Part002 \<Rightarrow> finishPart002 ext releaseDir s))"

section \<open>A small world for running the model\<close>

text \<open>
  One dependency, \<^verbatim>\<open>curl\<close>, whose version check prints \<^verbatim>\<open>7.0\<close> and \<^verbatim>\<open>7.1\<close> and whose
  locate script names one file with one URL; every call succeeds. The digest function is a
  stand-in: the model never looks inside a digest.
\<close>

definition curlFile :: File where
  "curlFile = \<lparr>Name = ''curl-7.1.tar.gz'', URLs = [''https://example.org/curl-7.1.tar.gz'']\<rparr>"

definition world :: externals where
  "world =
     \<lparr>ExecuteScript = (\<lambda>script params.
          if script = ''check'' then (''7.0'' @ [nl] @ ''7.1'' @ [nl], None)
          else (''<metalink/>'', None)),
      Unmarshal = (\<lambda>bytes. (\<lparr>Files = [curlFile]\<rparr>, None)),
      http_Get = (\<lambda>url. Inr ''NEWCONTENT''),
      copyFault = (\<lambda>url. None),
      os_Create = (\<lambda>path. None),
      os_Chmod = (\<lambda>path. None),
      os_Open = (\<lambda>path. None),
      readFault = (\<lambda>path. None),
      ReadFile_fault = (\<lambda>path. None),
      WriteFile_fault = (\<lambda>path. None),
      sha256hex = (\<lambda>bytes. bytes),
      cmdNew = (\<lambda>args. None),
      cmdExecute = (\<lambda>args. None),
      w_Add = (\<lambda>path. None),
      w_Status = Inr \<lparr>rendering = [], Staging = (\<lambda>path. Unmodified)\<rparr>,
      w_Commit = (\<lambda>msg. Inr ''c0ffee''),
      CommitObject = (\<lambda>h. Inr ''commit c0ffee''),
      LookupEnv = (\<lambda>key. None),
      Quote = (\<lambda>x. [CHR 0x22] @ x @ [CHR 0x22])\<rparr>"

definition curlResource :: Resource where
  "curlResource =
     \<lparr>localBlobDir = ''rel/config/blobs/curl'', packageName = ''curl'',
      VersionCheck = ''check'', MetalinkGet = ''get''\<rparr>"

definition curlBlob :: Blob where
  "curlBlob =
     \<lparr>Path = ''curl/curl-7.0.tar.gz'', PackageName = ''curl'', ID = ''id0'', Size = ''10'',
      Sha = ''sha256:OLD''\<rparr>"

definition otherBlob :: Blob where
  "otherBlob =
     \<lparr>Path = ''jq/jq-1.6.tar.gz'', PackageName = ''jq'', ID = ''id1'', Size = ''20'',
      Sha = ''sha256:JQ''\<rparr>"

definition emptyMetalink :: externals where
  "emptyMetalink = world\<lparr>Unmarshal := (\<lambda>bytes. (\<lparr>Files = []\<rparr>, None))\<rparr>"

definition sameBlob :: Blob where
  "sameBlob = curlBlob\<lparr>Path := ''curl/curl-7.1.tar.gz'', Sha := ''sha256:NEWCONTENT''\<rparr>"

definition sampleLines :: "string list" where
  "sampleLines = [''1.0'', [], ''1.10'', ''v1.9'']"

definition shuffledLines :: "string list" where
  "shuffledLines = [''v1.9'', [], ''1.10'', [], ''1.0'']"

definition v1_0 :: Version where
  "v1_0 = \<lparr>metadata = [], pre = [], segments = [1, 0, 0], si = 2, original = ''1.0''\<rparr>"

definition v1_10 :: Version where
  "v1_10 = \<lparr>metadata = [], pre = [], segments = [1, 10, 0], si = 2, original = ''1.10''\<rparr>"

definition v1_9 :: Version where
  "v1_9 = \<lparr>metadata = [], pre = [], segments = [1, 9, 0], si = 2, original = ''v1.9''\<rparr>"

section \<open>Vocabulary of the properties\<close>

text \<open>
  The strings the resolver hands to \<^verbatim>\<open>NewVersion\<close> are the first line and every later
  line that is not empty; \<open>parsable\<close> keeps, in input order, the versions of those that
  parse. \<open>vless\<close> is \<^verbatim>\<open>LessThan\<close> on versions that are not nil.
\<close>

definition entries :: "string list \<Rightarrow> string list" where
  "entries versionsList =
     (case versionsList of [] \<Rightarrow> [] | first # rest \<Rightarrow> first # filter (\<lambda>raw. raw \<noteq> []) rest)"

definition parsable :: "string list \<Rightarrow> Version list" where
  "parsable versionsList = List.map_filter NewVersion (entries versionsList)"

definition allParse :: "string list \<Rightarrow> bool" where
  "allParse versionsList =
     (versionsList \<noteq> [] \<and> list_all (\<lambda>raw. NewVersion raw \<noteq> None) (entries versionsList))"

definition vless :: "Version \<Rightarrow> Version \<Rightarrow> bool" where
  "vless a b = (Compare a b < 0)"

text \<open>
  \<open>weakOrderOn vs\<close>: on the versions of \<open>vs\<close>, \<open>vless\<close> is irreflexive and transitive, and
  so is its complement: a strict weak order, the least a comparison must be for "the
  maximum" to mean anything.
\<close>

definition weakOrderOn :: "Version list \<Rightarrow> bool" where
  "weakOrderOn vs =
     (\<forall>a\<in>set vs. \<forall>b\<in>set vs. \<forall>c\<in>set vs.
        \<not> vless a a \<and> (vless a b \<and> vless b c \<longrightarrow> vless a c)
        \<and> (\<not> vless a b \<and> \<not> vless b c \<longrightarrow> \<not> vless a c))"

text \<open>The loop of the resolver on versions that all parsed.\<close>

fun runMax :: "Version \<Rightarrow> Version list \<Rightarrow> Version" where
  "runMax best [] = best"
| "runMax best (v # vs) = runMax (if vless best v then v else best) vs"

text \<open>
  For the comparison of versions without a pre-release part: segments padded with zeros to
  one length, the lexicographic order on lists of one length, and the versions \<open>plain\<close>
  enough for it (no pre-release part, no negative segment; \<^verbatim>\<open>NewVersion\<close> never yields
  a negative segment).
\<close>

definition digitsVal :: "string \<Rightarrow> int" where
  "digitsVal s = foldl (\<lambda>a c. 10 * a + digitVal c) 0 s"

definition pad :: "nat \<Rightarrow> int list \<Rightarrow> int list" where
  "pad n xs = xs @ replicate (n - length xs) 0"

definition nonneg :: "int list \<Rightarrow> bool" where
  "nonneg xs = list_all (\<lambda>x. 0 \<le> x) xs"

definition digitString :: "string \<Rightarrow> bool" where
  "digitString p = (p \<noteq> [] \<and> list_all isDigit p)"

definition plain :: "Version \<Rightarrow> bool" where
  "plain v = (pre v = [] \<and> nonneg (segments v))"

fun lexLess :: "int list \<Rightarrow> int list \<Rightarrow> bool" where
  "lexLess (x # xs) (y # ys) = (x < y \<or> (x = y \<and> lexLess xs ys))"
| "lexLess _ _ = False"

text \<open>
  The commands of the bosh CLI the loop over the blobs issues for one blob, and for a
  list of blobs in order, given the digest of the fetched artifact: nothing for a blob of
  another package or with that digest, \<^verbatim>\<open>remove-blob\<close> then \<^verbatim>\<open>add-blob\<close> otherwise.
\<close>

definition removeArgs :: "string \<Rightarrow> Blob \<Rightarrow> string list" where
  "removeArgs releaseDir b = [''remove-blob'', ''--dir='' @ releaseDir, Path b]"

definition addArgs :: "string \<Rightarrow> string \<Rightarrow> string \<Rightarrow> File \<Rightarrow> string list" where
  "addArgs releaseDir blobFilePath pkg file =
     [''add-blob'', ''--dir='' @ releaseDir, blobFilePath, pkg @ ''/'' @ Name file]"

definition mutations ::
  "string \<Rightarrow> string \<Rightarrow> string \<Rightarrow> File \<Rightarrow> string \<Rightarrow> Blob list \<Rightarrow> event list" where
  "mutations releaseDir pkg blobFilePath file digest blobs =
     concat (map (\<lambda>b. if PackageName b = pkg \<and> Sha b \<noteq> digest
                        then [Bosh (removeArgs releaseDir b),
                              Bosh (addArgs releaseDir blobFilePath pkg file)]
                        else []) blobs)"

definition isFetched :: "event \<Rightarrow> bool" where
  "isFetched e = (case e of Fetched _ \<Rightarrow> True | _ \<Rightarrow> False)"

definition isBosh :: "event \<Rightarrow> bool" where
  "isBosh e = (case e of Bosh _ \<Rightarrow> True | _ \<Rightarrow> False)"

section \<open>Paths of the sample run\<close>

lemma manifest_path: "pathJoin [''config'', ''blobs.yml''] = ''config/blobs.yml''"
  by code_simp

lemma curl_versionPath: "versionPath curlResource = ''rel/config/blobs/curl/version''"
  unfolding versionPath_def curlResource_def by code_simp

lemma curl_blobFilePath:
  "pathJoin [localBlobDir curlResource, Name curlFile] = ''rel/config/blobs/curl/curl-7.1.tar.gz''"
  unfolding curlResource_def curlFile_def by code_simp

section \<open>Version Resolver\<close>

subsection \<open>The loop computes the first-seen maximum\<close>

lemma NewVersion_empty: "NewVersion [] = None"
  by (simp add: NewVersion_def dotted_def)

lemma latestLoop_runMax:
  "list_all (\<lambda>raw. NewVersion raw \<noteq> None) (filter (\<lambda>raw. raw \<noteq> []) rest) \<Longrightarrow>
     latestLoop (Some best) rest
       = Inr (Some (runMax best (List.map_filter NewVersion (filter (\<lambda>raw. raw \<noteq> []) rest))))"
proof (induction rest arbitrary: best)
  case Nil
  show ?case by (simp add: List.map_filter_simps)
next
  case (Cons raw rest)
  show ?case
  proof (cases "raw = []")
    case True
    with Cons show ?thesis by simp
  next
    case False
    with Cons.prems obtain v where v: "NewVersion raw = Some v" by auto
    from Cons.prems False
    have rest: "list_all (\<lambda>raw. NewVersion raw \<noteq> None) (filter (\<lambda>raw. raw \<noteq> []) rest)"
      by simp
    show ?thesis
      using False v Cons.IH [OF rest]
      by (simp add: LessThan_def vless_def List.map_filter_simps)
  qed
qed

lemma latestVersion_runMax:
  assumes "allParse versionsList"
  shows "\<exists>best vs. parsable versionsList = best # vs
           \<and> latestVersion versionsList = Inr (Some (runMax best vs))"
proof -
  from assms obtain first rest where l: "versionsList = first # rest"
    by (cases versionsList) (auto simp: allParse_def)
  from assms l obtain best where b: "NewVersion first = Some best"
    by (auto simp: allParse_def entries_def)
  from assms l
  have r: "list_all (\<lambda>raw. NewVersion raw \<noteq> None) (filter (\<lambda>raw. raw \<noteq> []) rest)"
    by (simp add: allParse_def entries_def)
  show ?thesis
    using l b latestLoop_runMax [OF r, of best]
    by (simp add: parsable_def entries_def latestVersion_def)
qed

lemma weakOrderOn_subset: "weakOrderOn vs \<Longrightarrow> set ws \<subseteq> set vs \<Longrightarrow> weakOrderOn ws"
  unfolding weakOrderOn_def by blast

lemma runMax_first_maximum:
  "weakOrderOn (best # vs) \<Longrightarrow>
     \<exists>before after. best # vs = before @ runMax best vs # after
        \<and> (\<forall>x\<in>set before. vless x (runMax best vs))
        \<and> (\<forall>x\<in>set (runMax best vs # after). \<not> vless (runMax best vs) x)"
proof (induction vs arbitrary: best)
  case Nil
  then have "\<not> vless best best" by (simp add: weakOrderOn_def)
  then show ?case by (intro exI [of _ "[]"]) simp
next
  case (Cons v vs)
  define b where "b = (if vless best v then v else best)"
  define r where "r = runMax b vs"
  have r_eq: "runMax best (v # vs) = r" by (simp add: r_def b_def)
  have bin: "b \<in> {best, v}" by (simp add: b_def)
  have wo: "weakOrderOn (b # vs)"
    by (rule weakOrderOn_subset [OF Cons.prems]) (use bin in auto)
  from Cons.IH [OF wo] obtain before after where
    dec: "b # vs = before @ r # after"
    and lo: "\<forall>x\<in>set before. vless x r"
    and hi: "\<forall>x\<in>set (r # after). \<not> vless r x"
    unfolding r_def by blast
  have "r \<in> set (b # vs)" by (subst dec) simp
  with bin have rin: "r \<in> set (best # v # vs)" by auto
  have trans: "vless x y \<Longrightarrow> vless y z \<Longrightarrow> vless x z"
    if "x \<in> set (best # v # vs)" "y \<in> set (best # v # vs)" "z \<in> set (best # v # vs)"
    for x y z
    using Cons.prems that unfolding weakOrderOn_def by blast
  have ntrans: "\<not> vless x y \<Longrightarrow> \<not> vless y z \<Longrightarrow> \<not> vless x z"
    if "x \<in> set (best # v # vs)" "y \<in> set (best # v # vs)" "z \<in> set (best # v # vs)"
    for x y z
    using Cons.prems that unfolding weakOrderOn_def by blast
  show ?case
    unfolding r_eq
  proof (cases "vless best v")
    case True
    then have bv: "b = v" by (simp add: b_def)
    have dec': "v # vs = before @ r # after" using dec bv by simp
    have "vless best r"
    proof (cases before)
      case Nil
      with dec' have "v = r" by simp
      with True show ?thesis by simp
    next
      case (Cons x xs)
      with dec' have "v \<in> set before" by simp
      with lo have "vless v r" by blast
      with True show ?thesis using trans [of best v r] rin by simp
    qed
    with lo have lo': "\<forall>x\<in>set (best # before). vless x r" by simp
    have "best # v # vs = (best # before) @ r # after" using dec' by simp
    with lo' hi show "\<exists>before after. best # v # vs = before @ r # after
        \<and> (\<forall>x\<in>set before. vless x r) \<and> (\<forall>x\<in>set (r # after). \<not> vless r x)"
      by blast
  next
    case False
    then have bb: "b = best" by (simp add: b_def)
    have dec': "best # vs = before @ r # after" using dec bb by simp
    show "\<exists>before after. best # v # vs = before @ r # after
        \<and> (\<forall>x\<in>set before. vless x r) \<and> (\<forall>x\<in>set (r # after). \<not> vless r x)"
    proof (cases before)
      case Nil
      with dec' have r: "best = r" and a: "vs = after" by simp_all
      have d: "best # v # vs = [] @ r # (v # after)" using r a by simp
      have h: "\<forall>x\<in>set (r # v # after). \<not> vless r x"
        using hi False r by auto
      have l: "\<forall>x\<in>set []. vless x r" by simp
      from d l h show ?thesis by blast
    next
      case (Cons x xs)
      with dec' have x: "x = best" and vs: "vs = xs @ r # after" by simp_all
      from lo Cons x have br: "vless best r" by simp
      have vr: "vless v r"
      proof (rule ccontr)
        assume "\<not> vless v r"
        with False have "\<not> vless best r" using ntrans [of best v r] rin by simp
        with br show False by simp
      qed
      have d: "best # v # vs = (best # v # xs) @ r # after" using vs by simp
      have l: "\<forall>x\<in>set (best # v # xs). vless x r"
        using lo Cons x vr by simp
      from d l hi show ?thesis by blast
    qed
  qed
qed

lemma set_entries:
  assumes "allParse versionsList"
  shows "set (entries versionsList) = {raw \<in> set versionsList. raw \<noteq> []}"
proof -
  from assms obtain first rest where l: "versionsList = first # rest"
    by (cases versionsList) (auto simp: allParse_def)
  from assms l have "NewVersion first \<noteq> None" by (simp add: allParse_def entries_def)
  then have "first \<noteq> []" using NewVersion_empty by auto
  then show ?thesis using l by (auto simp: entries_def)
qed

lemma set_parsable:
  "set (parsable versionsList) = {v. \<exists>raw\<in>set (entries versionsList). NewVersion raw = Some v}"
  by (force simp: parsable_def List.map_filter_def image_iff)

lemma runMax_maximal:
  assumes "weakOrderOn (best # vs)"
  shows "runMax best vs \<in> set (best # vs)
         \<and> (\<forall>x\<in>set (best # vs). \<not> vless (runMax best vs) x)"
proof -
  from runMax_first_maximum [OF assms] obtain before after where
    dec: "best # vs = before @ runMax best vs # after"
    and lo: "\<forall>x\<in>set before. vless x (runMax best vs)"
    and hi: "\<forall>x\<in>set (runMax best vs # after). \<not> vless (runMax best vs) x"
    by blast
  have rin: "runMax best vs \<in> set (best # vs)" by (subst dec) simp
  have "\<not> vless (runMax best vs) x" if "x \<in> set (best # vs)" for x
  proof -
    from that dec have "x \<in> set before \<or> x \<in> set (runMax best vs # after)"
      by (metis Un_iff set_append)
    then show ?thesis
    proof
      assume xb: "x \<in> set before"
      with lo have xr: "vless x (runMax best vs)" by blast
      show ?thesis
      proof
        assume "vless (runMax best vs) x"
        with xr have "vless x x"
          using assms that rin unfolding weakOrderOn_def by blast
        then show False using assms that unfolding weakOrderOn_def by blast
      qed
    next
      assume "x \<in> set (runMax best vs # after)"
      with hi show ?thesis by blast
    qed
  qed
  with rin show ?thesis by blast
qed

subsection \<open>The comparison is a strict weak order on versions without a pre-release part\<close>

lemma allZero_append: "allZero (xs @ ys) = (allZero xs \<and> allZero ys)"
  by (simp add: allZero_def)

lemma allZero_replicate: "allZero (replicate k 0)"
  by (simp add: allZero_def list_all_iff)

lemma compareSegments_refl: "compareSegments xs xs = 0"
  by (induction xs) (simp_all add: allZero_def)

lemma allZero_simps: "allZero [] = True" "allZero (x # xs) = (x = 0 \<and> allZero xs)"
  by (simp_all add: allZero_def)

lemma compareSegments_Nil_right: "compareSegments xs [] = (if allZero xs then 0 else 1)"
  by (cases xs) (simp_all add: allZero_simps)

lemma compareSegments_flip: "compareSegments ys xs = - compareSegments xs ys"
  by (induction xs ys rule: compareSegments.induct)
     (auto simp: allZero_simps compareSegments_Nil_right)

lemma compareSegments_zeros_left:
  "list_all (\<lambda>y. 0 \<le> y) ys \<Longrightarrow>
     compareSegments (replicate k 0) ys = (if allZero ys then 0 else - 1)"
proof (induction ys arbitrary: k)
  case Nil
  then show ?case by (cases k) (simp_all add: allZero_def list_all_iff)
next
  case (Cons y ys)
  then show ?case by (cases k) (auto simp: allZero_def)
qed

lemma compareSegments_pad_left:
  "list_all (\<lambda>y. 0 \<le> y) ys \<Longrightarrow>
     compareSegments (xs @ replicate k 0) ys = compareSegments xs ys"
proof (induction xs ys rule: compareSegments.induct)
  case (1 segmentsOther)
  then show ?case by (simp add: compareSegments_zeros_left)
next
  case (2 lhs segmentsSelf)
  then show ?case by (simp add: allZero_simps allZero_append allZero_replicate)
next
  case (3 lhs segmentsSelf rhs segmentsOther)
  then show ?case by simp
qed

lemma compareSegments_pad_right:
  "list_all (\<lambda>x. 0 \<le> x) xs \<Longrightarrow>
     compareSegments xs (ys @ replicate k 0) = compareSegments xs ys"
  using compareSegments_pad_left [of xs ys k] compareSegments_flip [of xs "ys @ replicate k 0"]
    compareSegments_flip [of xs ys]
  by simp

lemma compareSegments_eqlen:
  "length xs = length ys \<Longrightarrow>
     (compareSegments xs ys < 0) = lexLess xs ys
     \<and> (compareSegments xs ys = 0) = (xs = ys)"
  by (induction xs ys rule: list_induct2) (auto simp: allZero_def)

lemma lexLess_irrefl: "\<not> lexLess xs xs"
  by (induction xs) auto

lemma lexLess_trans:
  "length xs = length ys \<Longrightarrow> length ys = length zs \<Longrightarrow>
     lexLess xs ys \<Longrightarrow> lexLess ys zs \<Longrightarrow> lexLess xs zs"
  by (induction xs ys zs rule: list_induct3) auto

lemma lexLess_total:
  "length xs = length ys \<Longrightarrow> lexLess xs ys \<or> xs = ys \<or> lexLess ys xs"
  by (induction xs ys rule: list_induct2) auto

lemma nonneg_pad: "nonneg xs \<Longrightarrow> nonneg (pad n xs)"
  by (auto simp: nonneg_def pad_def list_all_iff)

lemma compareSegments_pad:
  assumes "nonneg xs" "nonneg ys"
  shows "compareSegments (pad n xs) (pad n ys) = compareSegments xs ys"
proof -
  have "compareSegments (pad n xs) (pad n ys) = compareSegments (pad n xs) ys"
    unfolding pad_def [of n ys]
    using nonneg_pad [OF assms(1), of n] by (simp add: compareSegments_pad_right nonneg_def)
  also have "\<dots> = compareSegments xs ys"
    unfolding pad_def using assms(2) by (simp add: compareSegments_pad_left nonneg_def)
  finally show ?thesis .
qed

lemma segLess_lex:
  assumes "nonneg xs" "nonneg ys" "length xs \<le> n" "length ys \<le> n"
  shows "(compareSegments xs ys < 0) = lexLess (pad n xs) (pad n ys)"
proof -
  have "length (pad n xs) = length (pad n ys)" using assms(3,4) by (simp add: pad_def)
  from compareSegments_eqlen [OF this] show ?thesis
    by (simp add: compareSegments_pad [OF assms(1,2)])
qed

lemma compareSegments_trans:
  assumes "nonneg xs" "nonneg ys" "nonneg zs"
    and "compareSegments xs ys < 0" "compareSegments ys zs < 0"
  shows "compareSegments xs zs < 0"
proof -
  define n where "n = max (length xs) (max (length ys) (length zs))"
  have l: "length xs \<le> n" "length ys \<le> n" "length zs \<le> n" by (simp_all add: n_def)
  have e: "length (pad n xs) = length (pad n ys)" "length (pad n ys) = length (pad n zs)"
    using l by (simp_all add: pad_def)
  from assms l have "lexLess (pad n xs) (pad n ys)" "lexLess (pad n ys) (pad n zs)"
    by (simp_all add: segLess_lex)
  from lexLess_trans [OF e this] show ?thesis using assms l by (simp add: segLess_lex)
qed

lemma lexLess_negtrans:
  "length xs = length ys \<Longrightarrow> length ys = length zs \<Longrightarrow>
     \<not> lexLess xs ys \<Longrightarrow> \<not> lexLess ys zs \<Longrightarrow> \<not> lexLess xs zs"
  by (induction xs ys zs rule: list_induct3) auto

lemma compareSegments_negtrans:
  assumes "nonneg xs" "nonneg ys" "nonneg zs"
    and "\<not> compareSegments xs ys < 0" "\<not> compareSegments ys zs < 0"
  shows "\<not> compareSegments xs zs < 0"
proof -
  define n where "n = max (length xs) (max (length ys) (length zs))"
  have l: "length xs \<le> n" "length ys \<le> n" "length zs \<le> n" by (simp_all add: n_def)
  have e: "length (pad n xs) = length (pad n ys)" "length (pad n ys) = length (pad n zs)"
    using l by (simp_all add: pad_def)
  from assms l have "\<not> lexLess (pad n xs) (pad n ys)" "\<not> lexLess (pad n ys) (pad n zs)"
    by (simp_all add: segLess_lex)
  from lexLess_negtrans [OF e this] show ?thesis using assms l by (simp add: segLess_lex)
qed

lemma digit_chars: "list_all (\<lambda>d. isDigit (char_of (48 + d)) \<and> digitVal (char_of (48 + d)) = int d)
                      [0, 1, 2, 3, 4, 5, 6, 7, 8, 9 :: nat]"
  by code_simp

lemma digit_char:
  assumes "d < (10::nat)"
  shows "isDigit (char_of (48 + d))" and "digitVal (char_of (48 + d)) = int d"
proof -
  from assms have "d = 0 \<or> d = 1 \<or> d = 2 \<or> d = 3 \<or> d = 4 \<or> d = 5 \<or> d = 6 \<or> d = 7 \<or> d = 8 \<or> d = 9" by arith
  then have "d \<in> set [0, 1, 2, 3, 4, 5, 6, 7, 8, 9 :: nat]" by simp
  with digit_chars show "isDigit (char_of (48 + d))" and "digitVal (char_of (48 + d)) = int d"
    unfolding list_all_iff by blast+
qed

lemma isDigit_nonneg: "isDigit c \<Longrightarrow> 0 \<le> digitVal c"
  by (auto simp: isDigit_def digitVal_def)

lemma digitsVal_snoc: "digitsVal (s @ [c]) = 10 * digitsVal s + digitVal c"
  by (simp add: digitsVal_def)

lemma formatNat_digits: "formatNat n \<noteq> [] \<and> list_all isDigit (formatNat n)"
proof (induction n rule: formatNat.induct)
  case (1 n)
  show ?case
  proof (cases "n < 10")
    case True
    then show ?thesis by (subst (1 2) formatNat.simps) (simp add: digit_char)
  next
    case False
    with 1 show ?thesis by (subst (1 2) formatNat.simps) (simp add: digit_char)
  qed
qed

lemma digitsVal_formatNat: "digitsVal (formatNat n) = int n"
proof (induction n rule: formatNat.induct)
  case (1 n)
  show ?case
  proof (cases "n < 10")
    case True
    then show ?thesis
      by (subst formatNat.simps) (simp add: digit_char digitsVal_def)
  next
    case False
    have "int n = 10 * int (n div 10) + int (n mod 10)"
      by (metis mult.commute mod_div_mult_eq of_nat_add of_nat_mult of_nat_numeral add.commute)
    with False 1 show ?thesis
      by (subst formatNat.simps) (simp add: digit_char digitsVal_snoc)
  qed
qed

lemma FormatInt_digits: "0 \<le> x \<Longrightarrow> FormatInt x \<noteq> [] \<and> list_all isDigit (FormatInt x)"
  by (simp add: FormatInt_def formatNat_digits)

lemma FormatInt_inj:
  assumes "0 \<le> x" "0 \<le> y" "FormatInt x = FormatInt y"
  shows "x = y"
proof -
  have "formatNat (nat x) = formatNat (nat y)" using assms by (simp add: FormatInt_def)
  then have "digitsVal (formatNat (nat x)) = digitsVal (formatNat (nat y))" by (rule arg_cong)
  then have "int (nat x) = int (nat y)" by (simp only: digitsVal_formatNat)
  then show ?thesis using assms(1,2) by simp
qed

lemma map_FormatInt_inj:
  "nonneg xs \<Longrightarrow> nonneg ys \<Longrightarrow> map FormatInt xs = map FormatInt ys \<Longrightarrow> xs = ys"
proof (induction xs arbitrary: ys)
  case Nil
  then show ?case by simp
next
  case (Cons x xs)
  from Cons.prems(3) obtain y ys' where ys: "ys = y # ys'" by (cases ys) auto
  from Cons.prems ys have xy: "FormatInt x = FormatInt y"
    and tl: "map FormatInt xs = map FormatInt ys'"
    and nn: "0 \<le> x" "0 \<le> y" "nonneg xs" "nonneg ys'"
    by (simp_all add: nonneg_def)
  from FormatInt_inj [OF nn(1,2) xy] Cons.IH [OF nn(3,4) tl] ys show ?case by simp
qed

lemma Join_Cons: "Join (p # ps) sep = p @ (if ps = [] then [] else sep @ Join ps sep)"
  by (cases ps) simp_all

lemma not_digit_dot: "\<not> isDigit (CHR ''.'')" "\<not> isDigit (CHR ''+'')"
  by (simp_all add: isDigit_def)

lemma takeWhile_digits:
  assumes "list_all isDigit p" and "x = [] \<or> \<not> isDigit (hd x)"
  shows "takeWhile isDigit (p @ x) = p"
proof -
  have "takeWhile isDigit (p @ x) = p @ takeWhile isDigit x"
    using assms(1) by (intro takeWhile_append2) (simp add: list_all_iff)
  moreover have "takeWhile isDigit x = []" using assms(2) by (cases x) auto
  ultimately show ?thesis by simp
qed

lemma digitString_FormatInt: "0 \<le> x \<Longrightarrow> digitString (FormatInt x)"
  by (simp add: digitString_def FormatInt_digits)

lemma Join_nonempty: "digitString p \<Longrightarrow> Join (p # ps) sep \<noteq> []"
  by (simp add: Join_Cons digitString_def)

lemma Join_digits_inj:
  "list_all digitString ps \<Longrightarrow> list_all digitString qs \<Longrightarrow>
     Join ps ''.'' = Join qs ''.'' \<Longrightarrow> ps = qs"
proof (induction ps arbitrary: qs)
  case Nil
  show ?case
  proof (cases qs)
    case Nil
    then show ?thesis by simp
  next
    case (Cons q qs')
    with Nil.prems have "digitString q" by simp
    from Join_nonempty [OF this, of qs' "''.''"] Nil.prems(3) Cons show ?thesis by simp
  qed
next
  case (Cons p ps)
  from Cons.prems(1) have dp: "digitString p" and dps: "list_all digitString ps" by simp_all
  show ?case
  proof (cases qs)
    case Nil
    from Join_nonempty [OF dp, of ps "''.''"] Cons.prems(3) Nil show ?thesis by simp
  next
    case (Cons q qs')
    with Cons.prems(2) have dq: "digitString q" and dqs: "list_all digitString qs'"
      by simp_all
    define x where "x = (if ps = [] then [] else ''.'' @ Join ps ''.'')"
    define y where "y = (if qs' = [] then [] else ''.'' @ Join qs' ''.'')"
    have eq: "p @ x = q @ y"
      using Cons.prems(3) Cons by (simp add: Join_Cons x_def y_def)
    have hx: "x = [] \<or> \<not> isDigit (hd x)" by (simp add: x_def not_digit_dot)
    have hy: "y = [] \<or> \<not> isDigit (hd y)" by (simp add: y_def not_digit_dot)
    have "takeWhile isDigit (p @ x) = p"
      using dp hx by (intro takeWhile_digits) (simp_all add: digitString_def)
    moreover have "takeWhile isDigit (q @ y) = q"
      using dq hy by (intro takeWhile_digits) (simp_all add: digitString_def)
    ultimately have pq: "p = q" using eq by simp
    with eq have xy: "x = y" by simp
    have "ps = qs'"
    proof (cases "ps = []")
      case True
      with xy have "y = []" by (simp add: x_def)
      then have "qs' = []" by (simp add: y_def split: if_splits)
      with True show ?thesis by simp
    next
      case False
      with xy have "y \<noteq> []" by (auto simp: x_def)
      then have q: "qs' \<noteq> []" by (simp add: y_def split: if_splits)
      with False xy have "Join ps ''.'' = Join qs' ''.''" by (simp add: x_def y_def)
      from Cons.IH [OF dps dqs this] show ?thesis .
    qed
    with pq Cons show ?thesis by simp
  qed
qed

lemma Join_digit_chars:
  "list_all digitString ps \<Longrightarrow> list_all (\<lambda>c. isDigit c \<or> c = CHR ''.'') (Join ps ''.'')"
proof (induction ps)
  case Nil
  then show ?case by simp
next
  case (Cons p ps)
  then show ?case
    by (cases "ps = []") (auto simp: Join_Cons digitString_def list_all_iff)
qed

lemma takeWhile_prefix:
  assumes "list_all P j" and "m = [] \<or> \<not> P (hd m)"
  shows "takeWhile P (j @ m) = j"
proof -
  have "takeWhile P (j @ m) = j @ takeWhile P m"
    using assms(1) by (intro takeWhile_append2) (simp add: list_all_iff)
  moreover have "takeWhile P m = []" using assms(2) by (cases m) auto
  ultimately show ?thesis by simp
qed

lemma String_plain_segments:
  assumes "plain a" "plain b" "String a = String b"
  shows "segments a = segments b"
proof -
  define P where "P = (\<lambda>c. isDigit c \<or> c = CHR ''.'')"
  define ja where "ja = Join (map FormatInt (segments a)) ''.''"
  define jb where "jb = Join (map FormatInt (segments b)) ''.''"
  define ma where "ma = (if metadata a \<noteq> [] then CHR ''+'' # metadata a else [])"
  define mb where "mb = (if metadata b \<noteq> [] then CHR ''+'' # metadata b else [])"
  have da: "list_all digitString (map FormatInt (segments a))"
    using assms(1) by (auto simp: plain_def nonneg_def list_all_iff digitString_FormatInt)
  have db: "list_all digitString (map FormatInt (segments b))"
    using assms(2) by (auto simp: plain_def nonneg_def list_all_iff digitString_FormatInt)
  have sa: "String a = ja @ ma" using assms(1) by (simp add: String_def plain_def ja_def ma_def)
  have sb: "String b = jb @ mb" using assms(2) by (simp add: String_def plain_def jb_def mb_def)
  have np: "\<not> P (CHR ''+'')" by (simp add: P_def isDigit_def)
  have "takeWhile P (ja @ ma) = ja"
    using Join_digit_chars [OF da] np by (intro takeWhile_prefix) (simp_all add: ja_def ma_def P_def)
  moreover have "takeWhile P (jb @ mb) = jb"
    using Join_digit_chars [OF db] np by (intro takeWhile_prefix) (simp_all add: jb_def mb_def P_def)
  ultimately have "ja = jb" using assms(3) sa sb by simp
  then have "map FormatInt (segments a) = map FormatInt (segments b)"
    unfolding ja_def jb_def by (rule Join_digits_inj [OF da db])
  then show ?thesis
    using assms(1,2) by (intro map_FormatInt_inj) (simp_all add: plain_def)
qed

lemma vless_plain:
  assumes "plain a" "plain b"
  shows "vless a b = (compareSegments (segments a) (segments b) < 0)"
proof (cases "String a = String b")
  case True
  from String_plain_segments [OF assms True] show ?thesis
    using True by (simp add: vless_def Compare_def compareSegments_refl)
next
  case False
  then show ?thesis
    using assms by (simp add: vless_def Compare_def plain_def compareSegments_refl)
qed

lemma plain_weakOrderOn:
  assumes "list_all plain vs"
  shows "weakOrderOn vs"
  unfolding weakOrderOn_def
proof (intro ballI conjI impI)
  fix a b c
  assume "a \<in> set vs" "b \<in> set vs" "c \<in> set vs"
  with assms have p: "plain a" "plain b" "plain c" by (simp_all add: list_all_iff)
  then have n: "nonneg (segments a)" "nonneg (segments b)" "nonneg (segments c)"
    by (simp_all add: plain_def)
  show "\<not> vless a a" using p by (simp add: vless_plain compareSegments_refl)
  show "vless a c" if "vless a b \<and> vless b c"
    using that p compareSegments_trans [OF n] by (simp add: vless_plain)
  show "\<not> vless a c" if "\<not> vless a b \<and> \<not> vless b c"
    using that p compareSegments_negtrans [OF n] by (simp add: vless_plain)
qed

lemma scanDigits_nonneg: "0 \<le> a \<Longrightarrow> scanDigits a ds = (n, e) \<Longrightarrow> 0 \<le> n"
proof (induction ds arbitrary: a)
  case Nil
  then show ?case by simp
next
  case (Cons d ds)
  show ?case
  proof (cases "isDigit d \<and> \<not> 2 ^ 64 - 1 < 10 * a + digitVal d")
    case True
    then have "0 \<le> 10 * a + digitVal d" using isDigit_nonneg [of d] Cons.prems(1) by simp
    moreover have "scanDigits (10 * a + digitVal d) ds = (n, e)"
      using True Cons.prems(2) by simp
    ultimately show ?thesis by (rule Cons.IH)
  next
    case False
    with Cons.prems(2) show ?thesis by (auto split: if_splits)
  qed
qed

lemma not_digit_sign: "\<not> isDigit (CHR ''-'')"
  by (simp add: isDigit_def)

lemma ParseInt_nonneg:
  assumes "p \<noteq> []" "list_all isDigit p" "ParseInt p = (n, None)"
  shows "0 \<le> n"
proof -
  from assms(1,2) have "isDigit (hd p)" by (cases p) simp_all
  then have h: "hd p \<noteq> CHR ''-''" "hd p \<noteq> CHR ''+''"
    using not_digit_sign not_digit_dot(2) by auto
  obtain un e where u: "scanDigits 0 p = (un, e)" by (cases "scanDigits 0 p")
  from scanDigits_nonneg [OF _ u] have "0 \<le> un" by simp
  moreover from assms(1,3) h u have "n = un"
    by (auto simp: ParseInt_def ParseUint_def Let_def
             split: if_splits option.splits numError.splits)
  ultimately show ?thesis by simp
qed

lemma parseSegments_nonneg:
  "list_all (\<lambda>p. p \<noteq> [] \<and> list_all isDigit p) strs \<Longrightarrow> parseSegments strs = Some vals
     \<Longrightarrow> nonneg vals"
proof (induction strs arbitrary: vals)
  case Nil
  then show ?case by (simp add: nonneg_def)
next
  case (Cons str strs)
  from Cons.prems(2) obtain val rest where
    v: "ParseInt str = (val, None)" and r: "parseSegments strs = Some rest"
    and e: "vals = val # rest"
    by (auto split: prod.splits option.splits)
  from Cons.prems(1) have s: "str \<noteq> []" "list_all isDigit str"
    and t: "list_all (\<lambda>p. p \<noteq> [] \<and> list_all isDigit p) strs"
    by simp_all
  from ParseInt_nonneg [OF s v] Cons.IH [OF t r] e show ?case by (simp add: nonneg_def)
qed

lemma NewVersion_nonneg:
  assumes "NewVersion raw = Some v"
  shows "nonneg (segments v)"
proof -
  define s where "s = (if raw \<noteq> [] \<and> hd raw = CHR ''v'' then tl raw else raw)"
  define num where "num = takeWhile (\<lambda>c. isDigit c \<or> c = CHR ''.'') s"
  from assms obtain segs where
    d: "dotted isDigit num"
    and p: "parseSegments (Split num (CHR ''.'')) = Some segs"
    and v: "segments v = segs @ replicate (3 - length segs) 0"
    unfolding NewVersion_def Let_def s_def [symmetric] num_def [symmetric]
    by (auto split: if_splits option.splits)
  from d have "list_all (\<lambda>p. p \<noteq> [] \<and> list_all isDigit p) (Split num (CHR ''.''))"
    by (simp add: dotted_def)
  from parseSegments_nonneg [OF this p] v show ?thesis
    by (auto simp: nonneg_def list_all_iff)
qed

lemma plain_entries_weakOrderOn:
  assumes "list_all (\<lambda>v. pre v = []) (parsable versionsList)"
  shows "weakOrderOn (parsable versionsList)"
proof (rule plain_weakOrderOn)
  show "list_all plain (parsable versionsList)"
    unfolding list_all_iff
  proof
    fix v
    assume v: "v \<in> set (parsable versionsList)"
    then obtain raw where "NewVersion raw = Some v" by (auto simp: set_parsable)
    from NewVersion_nonneg [OF this] assms v show "plain v"
      by (simp add: plain_def list_all_iff)
  qed
qed

subsection \<open>The claims\<close>

lemma sample_parsable: "parsable sampleLines = [v1_0, v1_10, v1_9]"
  unfolding sampleLines_def v1_0_def v1_10_def v1_9_def by code_simp

lemma sample_compare:
  "Compare v1_0 v1_0 = 0" "Compare v1_0 v1_10 = - 1" "Compare v1_0 v1_9 = - 1"
  "Compare v1_10 v1_0 = 1" "Compare v1_10 v1_10 = 0" "Compare v1_10 v1_9 = 1"
  "Compare v1_9 v1_0 = 1" "Compare v1_9 v1_10 = - 1" "Compare v1_9 v1_9 = 0"
  unfolding v1_0_def v1_10_def v1_9_def by code_simp+

text \<open>
  Claim C1, as stated, fails three times. A line that does not parse is not passed over:
  its \<^verbatim>\<open>NewVersion\<close> is nil and \<^verbatim>\<open>LessThan\<close> dereferences it, so a list with the
  parsable \<^verbatim>\<open>1.0.0\<close> and the unparsable \<^verbatim>\<open>foo\<close> ends in a nil pointer panic. The result
  depends on the order of the lines: \<^verbatim>\<open>1.0\<close> and \<^verbatim>\<open>1.0.0\<close> compare equal, the first seen
  is kept, and the two orders give two different version strings. And the comparison of
  the library is not an order on pre-release parts: \<^verbatim>\<open>alpha.beta\<close> is less than
  \<^verbatim>\<open>alpha\<close>, that less than \<^verbatim>\<open>alpha.1\<close>, and that less than \<^verbatim>\<open>alpha.beta\<close>, so on
  these three lines, which all parse, the resolver returns a version that is less than one
  of the entries; there is no maximum to return.
\<close>

theorem resolver_counterexample:
  "NewVersion ''1.0.0'' \<noteq> None \<and> NewVersion ''foo'' = None
   \<and> resolveLines [''1.0.0'', ''foo''] = Inl NilDereference
   \<and> resolveLines [''1.0'', ''1.0.0''] = Inr ''1.0''
   \<and> resolveLines [''1.0.0'', ''1.0''] = Inr ''1.0.0''
   \<and> allParse [''1.0.0-alpha.beta'', ''1.0.0-alpha'', ''1.0.0-alpha.1'']
   \<and> resolveLines [''1.0.0-alpha.beta'', ''1.0.0-alpha'', ''1.0.0-alpha.1'']
       = Inr ''1.0.0-alpha.1''
   \<and> LessThan (NewVersion ''1.0.0-alpha.1'') (NewVersion ''1.0.0-alpha.beta'') = Inr True"
  by code_simp

text \<open>
  Claim C1, amended. When every line handed to \<^verbatim>\<open>NewVersion\<close> parses and the library's
  comparison is a strict weak order on the parsed versions, the resolver returns the
  first-seen maximum: a parsed version \<open>v\<close> that every version before it is less than and
  that no version is greater than, and \<^verbatim>\<open>Original\<close> of it is handed on. Any list of the
  same lines in another order (all parsing again) yields a version \<open>v'\<close> that is neither
  less nor greater than \<open>v\<close>. By \<open>plain_entries_weakOrderOn\<close> the comparison is such an
  order whenever no parsed version carries a pre-release part.
\<close>

theorem resolver_first_maximum:
  assumes "allParse versionsList"
    and "weakOrderOn (parsable versionsList)"
    and "allParse shuffled"
    and "set shuffled = set versionsList"
  shows "\<exists>before v after v'.
           parsable versionsList = before @ v # after
           \<and> latestVersion versionsList = Inr (Some v)
           \<and> resolveLines versionsList = Inr (original v)
           \<and> (\<forall>x\<in>set before. vless x v)
           \<and> (\<forall>x\<in>set (v # after). \<not> vless v x)
           \<and> latestVersion shuffled = Inr (Some v')
           \<and> \<not> vless v v' \<and> \<not> vless v' v"
proof -
  from latestVersion_runMax [OF assms(1)] obtain best vs where
    p: "parsable versionsList = best # vs"
    and l: "latestVersion versionsList = Inr (Some (runMax best vs))"
    by blast
  define v where "v = runMax best vs"
  have wo: "weakOrderOn (best # vs)" using assms(2) p by simp
  from runMax_first_maximum [OF wo] obtain before after where
    dec: "best # vs = before @ v # after"
    and lo: "\<forall>x\<in>set before. vless x v"
    and hi: "\<forall>x\<in>set (v # after). \<not> vless v x"
    unfolding v_def by blast
  from runMax_maximal [OF wo]
  have vin: "v \<in> set (parsable versionsList)"
    and vmax: "\<forall>x\<in>set (parsable versionsList). \<not> vless v x"
    unfolding v_def p by blast+
  have sets: "set (parsable shuffled) = set (parsable versionsList)"
    using assms(4) by (simp add: set_parsable set_entries [OF assms(1)] set_entries [OF assms(3)])
  from latestVersion_runMax [OF assms(3)] obtain best' vs' where
    p': "parsable shuffled = best' # vs'"
    and l': "latestVersion shuffled = Inr (Some (runMax best' vs'))"
    by blast
  define v' where "v' = runMax best' vs'"
  have "weakOrderOn (parsable shuffled)"
    by (rule weakOrderOn_subset [OF assms(2)]) (simp add: sets)
  then have wo': "weakOrderOn (best' # vs')" using p' by simp
  from runMax_maximal [OF wo']
  have vin': "v' \<in> set (parsable versionsList)"
    and vmax': "\<forall>x\<in>set (parsable versionsList). \<not> vless v' x"
    unfolding v'_def sets [symmetric] p' by blast+
  have r: "resolveLines versionsList = Inr (original v)"
    using l by (simp add: resolveLines_def Original_def v_def)
  have "parsable versionsList = before @ v # after" using p dec by simp
  moreover have "latestVersion versionsList = Inr (Some v)" using l by (simp add: v_def)
  moreover have "latestVersion shuffled = Inr (Some v')" using l' by (simp add: v'_def)
  moreover have "\<not> vless v v'" using vmax vin' by blast
  moreover have "\<not> vless v' v" using vmax' vin by blast
  ultimately show ?thesis using r lo hi by blast
qed

theorem resolver_first_maximum_witness:
  "allParse sampleLines \<and> weakOrderOn (parsable sampleLines) \<and> allParse shuffledLines
   \<and> set shuffledLines = set sampleLines
   \<and> (\<exists>before v after v'.
         parsable sampleLines = before @ v # after
         \<and> latestVersion sampleLines = Inr (Some v)
         \<and> resolveLines sampleLines = Inr (original v)
         \<and> (\<forall>x\<in>set before. vless x v)
         \<and> (\<forall>x\<in>set (v # after). \<not> vless v x)
         \<and> latestVersion shuffledLines = Inr (Some v')
         \<and> \<not> vless v v' \<and> \<not> vless v' v)"
proof -
  have a: "allParse sampleLines" by code_simp
  have b: "weakOrderOn (parsable sampleLines)"
    by (simp add: sample_parsable weakOrderOn_def vless_def sample_compare)
  have c: "allParse shuffledLines" by code_simp
  have d: "set shuffledLines = set sampleLines"
    by (auto simp: sampleLines_def shuffledLines_def)
  from resolver_first_maximum [OF a b c d] a b c d show ?thesis by blast
qed

text \<open>
  Claim C4: an empty output, or one in which no line parses, should end in an error that
  says no version was found. The code does not look at the error of \<^verbatim>\<open>NewVersion\<close>: with
  an empty output \<^verbatim>\<open>versionsList\<close> is the one empty string, \<^verbatim>\<open>latestVersion\<close> is nil and
  \<^verbatim>\<open>latestVersion.Original()\<close> dereferences it; with several unparsable lines
  \<^verbatim>\<open>LessThan\<close> does. The run dies of a nil pointer panic, exit code 2.
\<close>

theorem resolver_nil_dereference:
  "resolve [] = Inl NilDereference
   \<and> resolve (''not-a-version'' @ [nl] @ ''latest'' @ [nl]) = Inl NilDereference
   \<and> exitCode (resolve []) = 2"
  by code_simp

section \<open>Artifact Locator\<close>

text \<open>
  Claim C5: a description with two files or more is rejected with the panic on several
  files, one file with two URLs or more with the panic on several URLs, and one file with
  one URL passes.
\<close>

theorem shape_enforced:
  "(2 \<le> length (Files meta4) \<longrightarrow>
      singleFile meta4 = Inl (Panic ''more than one metalink file is currently not supported.''))
   \<and> (Files meta4 = [file] \<and> 2 \<le> length (URLs file) \<longrightarrow>
      singleFile meta4
        = Inl (Panic ''more than one metalink URL per file is currently not supported.''))
   \<and> (Files meta4 = [file] \<and> URLs file = [url] \<longrightarrow> singleFile meta4 = Inr file)"
  by (simp add: singleFile_def)

theorem shape_enforced_witness:
  "singleFile \<lparr>Files = [curlFile, curlFile]\<rparr>
     = Inl (Panic ''more than one metalink file is currently not supported.'')
   \<and> singleFile \<lparr>Files = [\<lparr>Name = ''a'', URLs = [''u1'', ''u2'']\<rparr>]\<rparr>
     = Inl (Panic ''more than one metalink URL per file is currently not supported.'')
   \<and> singleFile \<lparr>Files = [curlFile]\<rparr> = Inr curlFile"
  using shape_enforced [of "\<lparr>Files = [curlFile, curlFile]\<rparr>"]
        shape_enforced [of "\<lparr>Files = [\<lparr>Name = ''a'', URLs = [''u1'', ''u2'']\<rparr>]\<rparr>"
                           "\<lparr>Name = ''a'', URLs = [''u1'', ''u2'']\<rparr>"]
        shape_enforced [of "\<lparr>Files = [curlFile]\<rparr>" curlFile
                           "''https://example.org/curl-7.1.tar.gz''"]
  by (simp add: curlFile_def)

text \<open>
  Claim C10: a description with no file passes the check on several files, and the read of
  \<^verbatim>\<open>meta4.Files[0]\<close> that follows is out of range: the locate step ends in an index
  panic, not in the panic of the shape check.
\<close>

theorem no_files_index_panic:
  "Files meta4 = [] \<Longrightarrow>
     singleFile meta4 = Inl IndexOutOfRange
     \<and> fst (locate (ext\<lparr>Unmarshal := (\<lambda>bytes. (meta4, err))\<rparr>) script ver s)
         = Inl IndexOutOfRange"
  by (simp add: singleFile_def locate_def)

theorem no_files_index_panic_witness:
  "Files \<lparr>Files = []\<rparr> = [] \<and> singleFile \<lparr>Files = []\<rparr> = Inl IndexOutOfRange
   \<and> fst (locate (world\<lparr>Unmarshal := (\<lambda>bytes. (\<lparr>Files = []\<rparr>, None))\<rparr>) ''get'' ''7.1''
            (initial Map.empty)) = Inl IndexOutOfRange"
  using no_files_index_panic [where ?meta4.0 = "\<lparr>Files = []\<rparr>" and ext = world and err = None
          and script = "''get''" and ver = "''7.1''" and s = "initial Map.empty"]
  by simp

text \<open>
  Claim C7: an output of the locate script that does not decode should end the run with
  the decoding error. The code wraps the error and drops it. When \<^verbatim>\<open>Unmarshal\<close> fails and
  leaves no file in \<^verbatim>\<open>meta4\<close> the run ends in an index panic that does not name the
  error; when it fails after decoding one file with one URL the run goes on as if nothing
  had happened. In general the locate step does not depend on the error at all.
\<close>

theorem locate_drops_parse_error:
  "fst (locate (world\<lparr>Unmarshal := (\<lambda>bytes. (\<lparr>Files = []\<rparr>, Some ''EOF''))\<rparr>)
          ''get'' ''7.1'' (initial Map.empty)) = Inl IndexOutOfRange
   \<and> fst (locate (world\<lparr>Unmarshal := (\<lambda>bytes. (\<lparr>Files = [curlFile]\<rparr>, Some ''syntax error''))\<rparr>)
          ''get'' ''7.1'' (initial Map.empty)) = Inr curlFile
   \<and> locate (ext\<lparr>Unmarshal := (\<lambda>bytes. (meta4, Some err))\<rparr>) script ver s
       = locate (ext\<lparr>Unmarshal := (\<lambda>bytes. (meta4, None))\<rparr>) script ver s"
  by (simp add: locate_def singleFile_def curlFile_def)

section \<open>Content Fetcher\<close>

lemma DownloadFile_truncated:
  assumes "http_Get ext url = Inr body" "os_Create ext filepath = None"
    "copyFault ext url = Some (n, err)" "os_Chmod ext filepath = None"
    "os_Open ext filepath = None" "readFault ext filepath = None"
  shows "fst (DownloadFile ext filepath url s)
           = Inr (emptyBlob\<lparr>Sha := ''sha256:'' @ sha256hex ext (take n body)\<rparr>, None)"
  using assms by (simp add: DownloadFile_def sha256sum_def emit_def Let_def)

lemma world_download:
  "DownloadFile world ''rel/config/blobs/curl/curl-7.1.tar.gz''
     ''https://example.org/curl-7.1.tar.gz'' s
   = (Inr (emptyBlob\<lparr>Sha := ''sha256:NEWCONTENT''\<rparr>, None),
      s\<lparr>files := (files s)(''rel/config/blobs/curl/curl-7.1.tar.gz'' \<mapsto> ''NEWCONTENT''),
        trace := trace s @ [Printed (''Downloading rel/config/blobs/curl/curl-7.1.tar.gz from https://example.org/curl-7.1.tar.gz'' @ [nl]),
          Fetched ''https://example.org/curl-7.1.tar.gz'']\<rparr>)"
  by (simp add: DownloadFile_def world_def sha256sum_def emit_def Let_def)

text \<open>
  Claim C6: a transfer that fails partway should give the caller an error. The error of
  \<^verbatim>\<open>io.Copy\<close> is overwritten by the result of \<^verbatim>\<open>os.Chmod\<close> before anything reads it: when
  the server would send the ten bytes \<^verbatim>\<open>NEWCONTENT\<close> and the copy breaks after three,
  \<^verbatim>\<open>DownloadFile\<close> returns a nil error and the digest of the three bytes on disk.
\<close>

theorem truncated_download_reported_ok:
  "fst (DownloadFile (world\<lparr>copyFault := (\<lambda>url. Some (3, ''unexpected EOF''))\<rparr>)
          ''rel/config/blobs/curl/curl-7.1.tar.gz'' ''https://example.org/curl-7.1.tar.gz''
          (initial Map.empty))
     = Inr (emptyBlob\<lparr>Sha := ''sha256:NEW''\<rparr>, None)"
  by (simp add: DownloadFile_def world_def sha256sum_def emit_def initial_def Let_def)

section \<open>Change Detector\<close>

subsection \<open>One blob of the manifest\<close>

lemma upgradeBlob_digest:
  assumes "PackageName b = pkg"
    and "URLs file = url # urls"
    and "DownloadFile ext blobFilePath url
           (emit (Printed (''Checking '' @ Path b @ '' ('' @ Sha b @ '')'' @ [nl])) s)
         = (Inr (newBlob, None), s2)"
  shows "(Sha b = Sha newBlob \<longrightarrow>
            fst (upgradeBlob ext rv releaseDir pkg blobFilePath file b s) = Inr ()
            \<and> filter isBosh (trace (snd (upgradeBlob ext rv releaseDir pkg blobFilePath file b s)))
                = filter isBosh (trace s2))
       \<and> (Sha b \<noteq> Sha newBlob
            \<and> cmdNew ext [''remove-blob'', ''--dir='' @ releaseDir, Path b] = None
            \<and> cmdExecute ext [''remove-blob'', ''--dir='' @ releaseDir, Path b] = None
            \<and> cmdNew ext [''add-blob'', ''--dir='' @ releaseDir, blobFilePath,
                           pkg @ ''/'' @ Name file] = None
            \<and> cmdExecute ext [''add-blob'', ''--dir='' @ releaseDir, blobFilePath,
                               pkg @ ''/'' @ Name file] = None \<longrightarrow>
            fst (upgradeBlob ext rv releaseDir pkg blobFilePath file b s) = Inr ()
            \<and> filter isBosh (trace (snd (upgradeBlob ext rv releaseDir pkg blobFilePath file b s)))
                = filter isBosh (trace s2)
                  @ [Bosh [''remove-blob'', ''--dir='' @ releaseDir, Path b],
                     Bosh [''add-blob'', ''--dir='' @ releaseDir, blobFilePath,
                           pkg @ ''/'' @ Name file]])"
proof (intro conjI impI)
  assume same: "Sha b = Sha newBlob"
  have "upgradeBlob ext rv releaseDir pkg blobFilePath file b s
          = (Inr (), emit (Printed (''Skipping package '' @ [CHR 0x27] @ PackageName b
                                  @ [CHR 0x27] @ ''. Blobs digest '' @ [CHR 0x27] @ Sha newBlob
                                  @ [CHR 0x27] @ '' did not change.'' @ [nl])) s2)"
    unfolding upgradeBlob_def using assms same by (simp del: append.simps)
  then show "fst (upgradeBlob ext rv releaseDir pkg blobFilePath file b s) = Inr ()"
    and "filter isBosh (trace (snd (upgradeBlob ext rv releaseDir pkg blobFilePath file b s)))
                = filter isBosh (trace s2)"
    by (simp_all add: emit_def isBosh_def)
next
  assume h: "Sha b \<noteq> Sha newBlob
            \<and> cmdNew ext [''remove-blob'', ''--dir='' @ releaseDir, Path b] = None
            \<and> cmdExecute ext [''remove-blob'', ''--dir='' @ releaseDir, Path b] = None
            \<and> cmdNew ext [''add-blob'', ''--dir='' @ releaseDir, blobFilePath,
                           pkg @ ''/'' @ Name file] = None
            \<and> cmdExecute ext [''add-blob'', ''--dir='' @ releaseDir, blobFilePath,
                               pkg @ ''/'' @ Name file] = None"
  show "fst (upgradeBlob ext rv releaseDir pkg blobFilePath file b s) = Inr ()"
    using assms h
    by (cases rv)
       (simp_all add: upgradeBlob_def boshRemoveBlob_def boshAddBlob_def bosh_def emit_def
          Let_def)
  show "filter isBosh (trace (snd (upgradeBlob ext rv releaseDir pkg blobFilePath file b s)))
                = filter isBosh (trace s2)
                  @ [Bosh [''remove-blob'', ''--dir='' @ releaseDir, Path b],
                     Bosh [''add-blob'', ''--dir='' @ releaseDir, blobFilePath,
                           pkg @ ''/'' @ Name file]]"
    using assms h
    by (cases rv)
       (simp_all add: upgradeBlob_def boshRemoveBlob_def boshAddBlob_def bosh_def emit_def
          isBosh_def Let_def)
qed

lemma DownloadFile_fst:
  "fst (DownloadFile ext filepath url s) = fst (DownloadFile ext filepath url s')"
  by (simp add: DownloadFile_def sha256sum_def emit_def Let_def
           split: sum.splits option.splits prod.splits)

lemma DownloadFile_bosh:
  "filter isBosh (trace (snd (DownloadFile ext filepath url s))) = filter isBosh (trace s)"
  by (simp add: DownloadFile_def sha256sum_def emit_def Let_def isBosh_def
           split: sum.splits option.splits prod.splits)

lemma upgradeBlob_step:
  assumes u: "URLs file = url # urls"
    and d: "fst (DownloadFile ext blobFilePath url s0) = Inr (newBlob, None)"
    and ok: "PackageName b = pkg \<and> Sha b \<noteq> Sha newBlob \<longrightarrow>
               cmdNew ext (removeArgs releaseDir b) = None
               \<and> cmdExecute ext (removeArgs releaseDir b) = None
               \<and> cmdNew ext (addArgs releaseDir blobFilePath pkg file) = None
               \<and> cmdExecute ext (addArgs releaseDir blobFilePath pkg file) = None"
  shows "fst (upgradeBlob ext rv releaseDir pkg blobFilePath file b s) = Inr ()
       \<and> filter isBosh (trace (snd (upgradeBlob ext rv releaseDir pkg blobFilePath file b s)))
           = filter isBosh (trace s) @ mutations releaseDir pkg blobFilePath file (Sha newBlob) [b]"
proof (cases "PackageName b = pkg")
  case False
  then show ?thesis by (simp add: upgradeBlob_def mutations_def)
next
  case True
  define s1 where "s1 = emit (Printed (''Checking '' @ Path b @ '' ('' @ Sha b @ '')'' @ [nl])) s"
  define s2 where "s2 = snd (DownloadFile ext blobFilePath url s1)"
  have "fst (DownloadFile ext blobFilePath url s1) = Inr (newBlob, None)"
    using d DownloadFile_fst [of ext blobFilePath url s1 s0] by simp
  then have dl: "DownloadFile ext blobFilePath url
           (emit (Printed (''Checking '' @ Path b @ '' ('' @ Sha b @ '')'' @ [nl])) s)
         = (Inr (newBlob, None), s2)"
    unfolding s2_def s1_def by (metis prod.collapse)
  have b2: "filter isBosh (trace s2) = filter isBosh (trace s)"
    unfolding s2_def s1_def by (simp add: DownloadFile_bosh) (simp add: emit_def isBosh_def)
  from upgradeBlob_digest [OF True u dl, of rv releaseDir] ok True b2
  show ?thesis
    by (cases "Sha b = Sha newBlob") (simp_all add: mutations_def removeArgs_def addArgs_def)
qed

subsection \<open>The claims\<close>

text \<open>
  Claim C2: the loop of \<^verbatim>\<open>main\<close> over the blobs of the manifest, for a dependency whose
  artifact is fetched with digest \<open>Sha newBlob\<close> (every command of the bosh CLI it asks for
  succeeding). It ends without abort, and the commands it has issued are, blob by blob in
  the order of the loop: none for a blob of another package, none for a blob of the
  package whose recorded digest equals the new one, and for a blob of the package whose
  digest differs \<^verbatim>\<open>remove-blob\<close> of the old path followed by \<^verbatim>\<open>add-blob\<close> of the fetched
  file under \<^verbatim>\<open>packageName/fileName\<close>.
\<close>

theorem blobs_loop_decides_by_digest:
  assumes u: "URLs file = url # urls"
    and d: "fst (DownloadFile ext blobFilePath url s0) = Inr (newBlob, None)"
    and ok: "\<forall>b\<in>set blobs. PackageName b = pkg \<and> Sha b \<noteq> Sha newBlob \<longrightarrow>
               cmdNew ext (removeArgs releaseDir b) = None
               \<and> cmdExecute ext (removeArgs releaseDir b) = None
               \<and> cmdNew ext (addArgs releaseDir blobFilePath pkg file) = None
               \<and> cmdExecute ext (addArgs releaseDir blobFilePath pkg file) = None"
  shows "fst (upgradeBlobs ext rv releaseDir pkg blobFilePath file blobs s) = Inr ()
       \<and> filter isBosh (trace (snd (upgradeBlobs ext rv releaseDir pkg blobFilePath file blobs s)))
           = filter isBosh (trace s)
             @ mutations releaseDir pkg blobFilePath file (Sha newBlob) blobs"
  using ok
proof (induction blobs arbitrary: s)
  case Nil
  show ?case by (simp add: mutations_def)
next
  case (Cons b blobs)
  obtain r s' where step: "upgradeBlob ext rv releaseDir pkg blobFilePath file b s = (r, s')"
    by (cases "upgradeBlob ext rv releaseDir pkg blobFilePath file b s")
  from Cons.prems have okb: "PackageName b = pkg \<and> Sha b \<noteq> Sha newBlob \<longrightarrow>
               cmdNew ext (removeArgs releaseDir b) = None
               \<and> cmdExecute ext (removeArgs releaseDir b) = None
               \<and> cmdNew ext (addArgs releaseDir blobFilePath pkg file) = None
               \<and> cmdExecute ext (addArgs releaseDir blobFilePath pkg file) = None"
    by simp
  from upgradeBlob_step [OF u d okb, of rv s] step
  have r: "r = Inr ()"
    and t: "filter isBosh (trace s')
              = filter isBosh (trace s) @ mutations releaseDir pkg blobFilePath file (Sha newBlob) [b]"
    by simp_all
  from Cons.prems have "\<forall>b\<in>set blobs. PackageName b = pkg \<and> Sha b \<noteq> Sha newBlob \<longrightarrow>
               cmdNew ext (removeArgs releaseDir b) = None
               \<and> cmdExecute ext (removeArgs releaseDir b) = None
               \<and> cmdNew ext (addArgs releaseDir blobFilePath pkg file) = None
               \<and> cmdExecute ext (addArgs releaseDir blobFilePath pkg file) = None"
    by simp
  from Cons.IH [OF this, of s'] step r t show ?case
    by (simp add: mutations_def)
qed

theorem blobs_loop_decides_by_digest_witness:
  "fst (upgradeBlobs world MainGo ''rel'' ''curl'' ''rel/config/blobs/curl/curl-7.1.tar.gz''
          curlFile [sameBlob, otherBlob, curlBlob] (initial Map.empty)) = Inr ()
   \<and> filter isBosh (trace (snd (upgradeBlobs world MainGo ''rel'' ''curl''
          ''rel/config/blobs/curl/curl-7.1.tar.gz'' curlFile [sameBlob, otherBlob, curlBlob]
          (initial Map.empty))))
       = [Bosh [''remove-blob'', ''--dir=rel'', ''curl/curl-7.0.tar.gz''],
          Bosh [''add-blob'', ''--dir=rel'', ''rel/config/blobs/curl/curl-7.1.tar.gz'',
                ''curl/curl-7.1.tar.gz'']]"
proof -
  have u: "URLs curlFile = ''https://example.org/curl-7.1.tar.gz'' # []"
    by (simp add: curlFile_def)
  have d: "fst (DownloadFile world ''rel/config/blobs/curl/curl-7.1.tar.gz''
                  ''https://example.org/curl-7.1.tar.gz'' (initial Map.empty))
             = Inr (emptyBlob\<lparr>Sha := ''sha256:NEWCONTENT''\<rparr>, None)"
    by (simp add: world_download)
  have ok: "\<forall>b\<in>set [sameBlob, otherBlob, curlBlob].
               PackageName b = ''curl'' \<and> Sha b \<noteq> Sha (emptyBlob\<lparr>Sha := ''sha256:NEWCONTENT''\<rparr>) \<longrightarrow>
               cmdNew world (removeArgs ''rel'' b) = None
               \<and> cmdExecute world (removeArgs ''rel'' b) = None
               \<and> cmdNew world (addArgs ''rel'' ''rel/config/blobs/curl/curl-7.1.tar.gz'' ''curl'' curlFile) = None
               \<and> cmdExecute world (addArgs ''rel'' ''rel/config/blobs/curl/curl-7.1.tar.gz'' ''curl'' curlFile) = None"
    by (simp add: world_def)
  from blobs_loop_decides_by_digest [OF u d ok, of MainGo "initial Map.empty"]
  show ?thesis
    by (simp add: mutations_def removeArgs_def addArgs_def sameBlob_def otherBlob_def
          curlBlob_def curlFile_def initial_def isBosh_def)
qed

text \<open>
  Claim C3, as stated, fails (\<open>Part002\<close>): the marker is read after the locate step, so a
  dependency whose marker holds the resolved version is not classified at all when the
  locate step aborts. Here the version check resolves to \<^verbatim>\<open>7.1\<close>, the marker holds
  \<^verbatim>\<open>7.1\<close>, the metalink has no file, and the run ends in an index panic.
\<close>

theorem fast_path_counterexample:
  "resolve (fst (ExecuteScript emptyMetalink (VersionCheck curlResource) [])) = Inr ''7.1''
   \<and> ReadFile emptyMetalink (initial [''rel/config/blobs/curl/version'' \<mapsto> ''7.1''])
        (versionPath curlResource) = (''7.1'', None)
   \<and> fst (upgradeResource emptyMetalink Part002 [curlBlob] ''rel'' curlResource
            (initial [''rel/config/blobs/curl/version'' \<mapsto> ''7.1''])) = Inl IndexOutOfRange"
proof -
  have e: "fst (ExecuteScript emptyMetalink (VersionCheck curlResource) []) = ''7.0'' @ [nl] @ ''7.1'' @ [nl]"
    "snd (ExecuteScript emptyMetalink (VersionCheck curlResource) []) = None"
    by (simp_all add: emptyMetalink_def world_def curlResource_def)
  have r: "resolve (''7.0'' @ [nl] @ ''7.1'' @ [nl]) = Inr ''7.1''" by code_simp
  have rd: "ReadFile emptyMetalink (initial [''rel/config/blobs/curl/version'' \<mapsto> ''7.1''])
        (versionPath curlResource) = (''7.1'', None)"
    by (simp add: ReadFile_def emptyMetalink_def world_def initial_def curl_versionPath)
  have "fst (upgradeResource emptyMetalink Part002 [curlBlob] ''rel'' curlResource
            (initial [''rel/config/blobs/curl/version'' \<mapsto> ''7.1''])) = Inl IndexOutOfRange"
    using e r
    by (cases "ExecuteScript emptyMetalink (VersionCheck curlResource) []")
       (simp add: upgradeResource_def locate_def singleFile_def emptyMetalink_def Let_def)
  with e r rd show ?thesis by simp
qed

text \<open>
  Claim C3, amended (\<open>Part002\<close>): when the version marker of a dependency exists and holds
  the resolved version, nothing is fetched for that dependency, no command of the bosh CLI
  is issued and no file is written. The locate script has run by then; the dependency is
  classified unchanged, with the message that the version is unchanged as its only
  output, exactly when the locate step returned a file, and otherwise the run ends in the
  abort of that step.
\<close>

theorem fast_path_after_locate:
  assumes "ExecuteScript ext (VersionCheck res) [] = (stdout, None)"
    and "resolve stdout = Inr ver"
    and "ReadFile_fault ext (versionPath res) = None"
    and "files s (versionPath res) = Some ver"
  shows "fst (upgradeResource ext Part002 blobs releaseDir res s)
           = (case fst (locate ext (MetalinkGet res) ver s) of
                Inl a \<Rightarrow> Inl a
              | Inr file \<Rightarrow> Inr ())
       \<and> trace (snd (upgradeResource ext Part002 blobs releaseDir res s))
           = trace s
             @ [Executed (VersionCheck res) [], Executed (MetalinkGet res) [(''version'', ver)]]
             @ (case fst (locate ext (MetalinkGet res) ver s) of
                  Inl a \<Rightarrow> []
                | Inr file \<Rightarrow>
                    [Printed (''Skipping  package '' @ [CHR 0x27] @ packageName res
                               @ [CHR 0x27] @ ''. Version is unchanged.'' @ [nl])])
       \<and> files (snd (upgradeResource ext Part002 blobs releaseDir res s)) = files s
       \<and> filter isFetched (trace (snd (upgradeResource ext Part002 blobs releaseDir res s)))
           = filter isFetched (trace s)
       \<and> filter isBosh (trace (snd (upgradeResource ext Part002 blobs releaseDir res s)))
           = filter isBosh (trace s)"
  using assms
  by (simp add: upgradeResource_def locate_def compareAndUpgrade_def ReadFile_def emit_def
        isFetched_def isBosh_def Let_def split: sum.splits)

theorem fast_path_after_locate_witness:
  "fst (upgradeResource world Part002 [curlBlob] ''rel'' curlResource
         (initial [''rel/config/blobs/curl/version'' \<mapsto> ''7.1''])) = Inr ()
   \<and> trace (snd (upgradeResource world Part002 [curlBlob] ''rel'' curlResource
         (initial [''rel/config/blobs/curl/version'' \<mapsto> ''7.1''])))
      = [Executed ''check'' [], Executed ''get'' [(''version'', ''7.1'')],
         Printed (''Skipping  package '' @ [CHR 0x27] @ ''curl'' @ [CHR 0x27]
                   @ ''. Version is unchanged.'' @ [nl])]
   \<and> fst (upgradeResource emptyMetalink Part002 [curlBlob] ''rel'' curlResource
         (initial [''rel/config/blobs/curl/version'' \<mapsto> ''7.1''])) = Inl IndexOutOfRange
   \<and> trace (snd (upgradeResource emptyMetalink Part002 [curlBlob] ''rel'' curlResource
         (initial [''rel/config/blobs/curl/version'' \<mapsto> ''7.1''])))
      = [Executed ''check'' [], Executed ''get'' [(''version'', ''7.1'')]]"
proof -
  have a: "ExecuteScript world (VersionCheck curlResource) [] = (''7.0'' @ [nl] @ ''7.1'' @ [nl], None)"
    by (simp add: world_def curlResource_def)
  have a': "ExecuteScript emptyMetalink (VersionCheck curlResource) [] = (''7.0'' @ [nl] @ ''7.1'' @ [nl], None)"
    by (simp add: emptyMetalink_def world_def curlResource_def)
  have b: "resolve (''7.0'' @ [nl] @ ''7.1'' @ [nl]) = Inr ''7.1''" by code_simp
  have c: "ReadFile_fault world (versionPath curlResource) = None" by (simp add: world_def)
  have c': "ReadFile_fault emptyMetalink (versionPath curlResource) = None"
    by (simp add: emptyMetalink_def world_def)
  have d: "files (initial [''rel/config/blobs/curl/version'' \<mapsto> ''7.1'']) (versionPath curlResource) = Some ''7.1''"
    by (simp add: initial_def curl_versionPath)
  have e: "fst (locate world (MetalinkGet curlResource) ''7.1'' (initial [''rel/config/blobs/curl/version'' \<mapsto> ''7.1''])) = Inr curlFile"
    by (simp add: locate_def world_def singleFile_def curlFile_def)
  have e': "fst (locate emptyMetalink (MetalinkGet curlResource) ''7.1'' (initial [''rel/config/blobs/curl/version'' \<mapsto> ''7.1''])) = Inl IndexOutOfRange"
    by (simp add: locate_def emptyMetalink_def singleFile_def)
  show ?thesis
    using fast_path_after_locate [OF a b c d, of "[curlBlob]" "''rel''"]
          fast_path_after_locate [OF a' b c' d, of "[curlBlob]" "''rel''"] e e'
    by (simp add: curlResource_def initial_def)
qed

text \<open>
  Claim C9 (\<open>Part002\<close>): the version marker is written and read back verbatim. After a
  pass over a dependency that resolved \<open>V\<close>, went through the comparison of blobs and
  wrote the marker, the marker file holds \<open>V\<close>, \<^verbatim>\<open>ReadFile\<close> returns exactly \<open>V\<close>, and the
  next pass that resolves \<open>V\<close> finds the marker equal to it and leaves the dependency.
\<close>

theorem marker_written_then_read:
  assumes run: "compareAndUpgrade ext Part002 blobs releaseDir res V file s = (Inr (), s')"
    and slow: "fst (ReadFile ext s (versionPath res)) \<noteq> V"
    and w: "WriteFile_fault ext (versionPath res) = None"
  shows "files s' (versionPath res) = Some V
       \<and> ReadFile ext s' (versionPath res) = (V, None)
       \<and> compareAndUpgrade ext Part002 blobs2 releaseDir res V file2 s'
           = (Inr (), emit (Printed (''Skipping  package '' @ [CHR 0x27] @ packageName res
                              @ [CHR 0x27] @ ''. Version is unchanged.'' @ [nl])) s')"
proof -
  have nf: "ReadFile_fault ext (versionPath res) = None"
    using run by (auto simp: compareAndUpgrade_def ReadFile_def split: option.splits)
  obtain r1 s1 where loop: "upgradeBlobs ext Part002 releaseDir (packageName res)
                       (pathJoin [localBlobDir res, Name file]) file blobs s = (r1, s1)"
    by (cases "upgradeBlobs ext Part002 releaseDir (packageName res)
                       (pathJoin [localBlobDir res, Name file]) file blobs s")
  have s': "s' = s1\<lparr>files := (files s1)(versionPath res \<mapsto> V)\<rparr>"
    using run slow w nf loop
    by (auto simp: compareAndUpgrade_def ReadFile_def WriteFile_def
             split: option.splits sum.splits oserror.splits if_splits)
  have f: "files s' (versionPath res) = Some V" by (simp add: s')
  then have rd: "ReadFile ext s' (versionPath res) = (V, None)"
    using nf by (simp add: ReadFile_def)
  then show ?thesis using f by (simp add: compareAndUpgrade_def)
qed

theorem marker_written_then_read_witness:
  "fst (compareAndUpgrade world Part002 [curlBlob] ''rel'' curlResource ''7.1'' curlFile
          (initial Map.empty)) = Inr ()
   \<and> fst (ReadFile world (initial Map.empty) (versionPath curlResource)) \<noteq> ''7.1''
   \<and> ReadFile world
         (snd (compareAndUpgrade world Part002 [curlBlob] ''rel'' curlResource ''7.1'' curlFile
                 (initial Map.empty)))
         ''rel/config/blobs/curl/version'' = (''7.1'', None)"
proof -
  have c: "cmdNew world = (\<lambda>args. None)" "cmdExecute world = (\<lambda>args. None)"
    "ReadFile_fault world = (\<lambda>path. None)" "WriteFile_fault world = (\<lambda>path. None)"
    by (simp_all add: world_def)
  have f: "fst (compareAndUpgrade world Part002 [curlBlob] ''rel'' curlResource ''7.1'' curlFile
          (initial Map.empty)) = Inr ()"
    unfolding compareAndUpgrade_def curl_versionPath curl_blobFilePath
    by (simp add: ReadFile_def WriteFile_def upgradeBlob_def world_download boshRemoveBlob_def boshAddBlob_def
          bosh_def c emit_def initial_def Let_def curlBlob_def curlFile_def curlResource_def)
  then have run: "compareAndUpgrade world Part002 [curlBlob] ''rel'' curlResource ''7.1'' curlFile
          (initial Map.empty)
      = (Inr (), snd (compareAndUpgrade world Part002 [curlBlob] ''rel'' curlResource ''7.1''
                        curlFile (initial Map.empty)))"
    by (metis prod.collapse)
  have slow: "fst (ReadFile world (initial Map.empty) (versionPath curlResource)) \<noteq> ''7.1''"
    by (simp add: ReadFile_def c initial_def)
  have w: "WriteFile_fault world (versionPath curlResource) = None" by (simp add: c)
  from marker_written_then_read [OF run slow w] f slow show ?thesis
    by (simp add: curl_versionPath)
qed

section \<open>The end of the run\<close>

text \<open>
  Claim C8, as stated, fails on the exit code: when the manifest does not show as modified
  in the index, \<open>MainGo\<close> calls \<^verbatim>\<open>os.Exit(1)\<close>.
\<close>

theorem noop_exit_code_counterexample:
  "exitCode (fst (finishMainGo world ''rel'' (initial Map.empty))) = 1"
  by (simp add: finishMainGo_def world_def manifest_path emit_def Let_def)

text \<open>
  Claim C8, amended: when the manifest does not show as modified in the index, the upload
  is skipped (the run issues nothing after reading the status but two lines of output) and
  the process ends with exit code 1, by \<^verbatim>\<open>os.Exit\<close> and not by a panic.
\<close>

theorem noop_exits_one:
  assumes "w_Add ext ''config/blobs.yml'' = None"
    and "w_Status ext = Inr status"
    and "Staging status ''config/blobs.yml'' \<noteq> Modified"
  shows "fst (finishMainGo ext releaseDir s) = Inl (Exit 1)
     \<and> exitCode (fst (finishMainGo ext releaseDir s)) = 1
     \<and> trace (snd (finishMainGo ext releaseDir s))
         = trace s @ [GitAdd ''config/blobs.yml'', GitStatusRead,
                      Printed (''Status:  '' @ rendering status @ [nl]),
                      Printed (''No changes in git detected.'' @ [nl])]"
  using assms by (simp add: finishMainGo_def manifest_path emit_def Let_def)

theorem noop_exits_one_witness:
  "w_Add world ''config/blobs.yml'' = None
   \<and> w_Status world = Inr \<lparr>rendering = [], Staging = (\<lambda>path. Unmodified)\<rparr>
   \<and> fst (finishMainGo world ''rel'' (initial Map.empty)) = Inl (Exit 1)
   \<and> trace (snd (finishMainGo world ''rel'' (initial Map.empty)))
       = [GitAdd ''config/blobs.yml'', GitStatusRead, Printed (''Status:  '' @ [nl]),
          Printed (''No changes in git detected.'' @ [nl])]"
proof -
  have a: "w_Add world ''config/blobs.yml'' = None" by (simp add: world_def)
  have b: "w_Status world = Inr \<lparr>rendering = [], Staging = (\<lambda>path. Unmodified)\<rparr>"
    by (simp add: world_def)
  have c: "Staging \<lparr>rendering = [], Staging = (\<lambda>path. Unmodified)\<rparr> ''config/blobs.yml''
             \<noteq> Modified"
    by simp
  show ?thesis
    using a b noop_exits_one [OF a b c, of "''rel''" "initial Map.empty"]
    by (simp add: initial_def)
qed

end
